theory Spec2Isabelle
  imports Complex_Main
begin

section \<open>KeyScribe audio analysis: data model\<close>

text \<open>
  The development embeds \<^verbatim>\<open>src/utils/audioAnalysis.ts\<close>.  A JavaScript \<^verbatim>\<open>number\<close> that
  holds a measurement (a sample, a time in seconds, a frequency) is a \<^typ>\<open>real\<close>; one that
  is the result of \<^verbatim>\<open>Math.round\<close> or an index is an \<^typ>\<open>int\<close> or a \<^typ>\<open>nat\<close>.
  Arithmetic is therefore exact: the rounding of IEEE doubles, NaN and the infinities are not
  part of the model.

  Properties that hold only because the arithmetic is exact are not stated of the program.
  There are two.  In \<^verbatim>\<open>frequencyToNoteName\<close> the deviation in cents from the rounded MIDI
  number is at most 50 in exact arithmetic, so the 50-cent check never fires there; in doubles
  \<^verbatim>\<open>Math.log2\<close> and \<^verbatim>\<open>Math.pow\<close> are rounded and a frequency next to a quarter-tone
  boundary (452.8929841231365 Hz) is rejected.  In \<^verbatim>\<open>detectNotes\<close> a note's duration is the
  closing time minus its start, so start plus duration is the closing time in exact
  arithmetic; in doubles the sum can exceed it by one unit in the last place
  (0.03 + (0.29 - 0.03) is 0.29000000000000004).
\<close>

record Note =
  pitch :: string
  startTime :: real
  duration :: real
  velocity :: int

record AudioAnalysisResult =
  tempo :: int
  key :: string
  timeSignature :: string
  "notes" :: "Note list"
  truncated :: bool

definition NOTE_NAMES :: "string list" where
  "NOTE_NAMES = [''C'', ''C#'', ''D'', ''D#'', ''E'', ''F'', ''F#'', ''G'', ''G#'', ''A'', ''A#'', ''B'']"

definition MAX_DURATION_SECONDS :: real where
  "MAX_DURATION_SECONDS = 60"

definition MIN_NOTE_DURATION_SECONDS :: real where
  "MIN_NOTE_DURATION_SECONDS = 12 / 100"

section \<open>Printing integers\<close>

text \<open>The template literal \<^verbatim>\<open>`${NOTE_NAMES[noteIndex]}${octave}`\<close> prints the octave in decimal.\<close>

definition digitChar :: "nat \<Rightarrow> char" where
  "digitChar d = (''0123456789'' ! (d mod 10))"

fun natToString :: "nat \<Rightarrow> string" where
  "natToString n = (if n < 10 then [digitChar n] else natToString (n div 10) @ [digitChar n])"

definition intToString :: "int \<Rightarrow> string" where
  "intToString k = (if k < 0 then CHR ''-'' # natToString (nat (- k)) else natToString (nat k))"

section \<open>SignalUtil and PitchNamer\<close>

definition calculateRMS :: "real list \<Rightarrow> real" where
  "calculateRMS buffer =
     sqrt ((\<Sum>x\<leftarrow>buffer. x * x) / (if length buffer = 0 then 1 else real (length buffer)))"

definition median :: "real list \<Rightarrow> real" where
  "median values =
     (if length values = 0 then 0
      else let sorted = sort values; mid = length sorted div 2
           in if length sorted mod 2 \<noteq> 0 then sorted ! mid
              else (sorted ! (mid - 1) + sorted ! mid) / 2)"

text \<open>JavaScript's \<^verbatim>\<open>%\<close> on integers: the sign of the result follows the dividend.\<close>

definition jsRem :: "int \<Rightarrow> int \<Rightarrow> int" where
  "jsRem a b = sgn a * (\<bar>a\<bar> mod \<bar>b\<bar>)"

text \<open>
  \<^verbatim>\<open>Math.round\<close> rounds to the nearest integer with ties towards plus infinity, which is
  \<^term>\<open>round\<close> (\<open>round x = \<lfloor>x + 1/2\<rfloor>\<close>).
\<close>

definition midiNumberOf :: "real \<Rightarrow> real" where
  "midiNumberOf frequency = 12 * log 2 (frequency / 440) + 69"

definition centsDeviationOf :: "real \<Rightarrow> int \<Rightarrow> real" where
  "centsDeviationOf frequency roundedMidi =
     1200 * log 2 (frequency / (440 * 2 powr (real_of_int (roundedMidi - 69) / 12)))"

definition frequencyToNoteName :: "real \<Rightarrow> string" where
  "frequencyToNoteName frequency =
     (if frequency = 0 \<or> frequency \<le> 10 then ''''
      else let midiNumber = midiNumberOf frequency;
               roundedMidi = round midiNumber
           in if roundedMidi < 21 \<or> roundedMidi > 108 then ''''
              else let octave = \<lfloor>real_of_int roundedMidi / 12\<rfloor> - 1;
                       noteIndex = jsRem roundedMidi 12;
                       centsDeviation = centsDeviationOf frequency roundedMidi
                   in if \<bar>centsDeviation\<bar> > 50 then ''''
                      else NOTE_NAMES ! nat noteIndex @ intToString octave)"

section \<open>Framing\<close>

text \<open>
  Both detectors run \<^verbatim>\<open>for (let i = 0; i <= buffer.length - frameSize; i += hopSize)\<close>.
  \<open>frameOffsets i n frameSize hopSize\<close> lists the values the loop variable takes from \<open>i\<close> on,
  for a buffer of \<open>n\<close> samples; the loop bodies are run over that list.
\<close>

function frameOffsets :: "nat \<Rightarrow> nat \<Rightarrow> nat \<Rightarrow> nat \<Rightarrow> nat list" where
  "frameOffsets i n frameSize hopSize =
     (if hopSize = 0 then []
      else if i + frameSize \<le> n then i # frameOffsets (i + hopSize) n frameSize hopSize
      else [])"
  by pat_completeness auto
termination
  by (relation "measure (\<lambda>(i, n, frameSize, hopSize). Suc n - i)") auto

declare frameOffsets.simps [simp del]

definition slice :: "real list \<Rightarrow> nat \<Rightarrow> nat \<Rightarrow> real list" where
  "slice buffer from to = take (to - from) (drop from buffer)"

section \<open>NoteDetector\<close>

datatype error =
  AudioContextError | DecodeError | BufferError | MixdownError | PitchDetectorError | StorageError

record PartialNote =
  partialPitch :: string
  partialStartTime :: real
  partialVelocity :: int

definition completeNote :: "PartialNote \<Rightarrow> real \<Rightarrow> Note" where
  "completeNote c d =
     \<lparr>pitch = partialPitch c, startTime = partialStartTime c, duration = d,
      velocity = partialVelocity c\<rparr>"

record DetectState =
  detectedNotes :: "Note list"
  recentFrequencies :: "real list"
  currentNote :: "PartialNote option"
  lastPitchName :: string
  consecutiveFramesCount :: nat
  potentialNoteStart :: "real option"

definition clarityThreshold :: real where
  "clarityThreshold = 88 / 100"

definition minConsecutiveFrames :: nat where
  "minConsecutiveFrames = 3"

definition detectMinDuration :: real where
  "detectMinDuration = 7 / 100"

text \<open>
  The block that ends the note being tracked occurs three times in \<^verbatim>\<open>detectNotes\<close> (pitch
  change, unclear frame, end of the buffer), each time with another end time.  It yields the
  list \<^verbatim>\<open>notes\<close> after the block.
\<close>

definition closeCurrentNote :: "DetectState \<Rightarrow> real \<Rightarrow> Note list" where
  "closeCurrentNote s endTime =
     (case currentNote s of
        None \<Rightarrow> detectedNotes s
      | Some c \<Rightarrow>
          if consecutiveFramesCount s \<ge> minConsecutiveFrames
          then let d = endTime - partialStartTime c
               in if d \<ge> detectMinDuration then detectedNotes s @ [completeNote c d]
                  else detectedNotes s
          else detectedNotes s)"

definition frameVelocity :: "real \<Rightarrow> real \<Rightarrow> int" where
  "frameVelocity frameRMS overallRMS =
     min 127 (max 0 (round ((frameRMS / (overallRMS + 1 / 1000000)) * 90 + 30)))"

definition pushFrequency :: "real list \<Rightarrow> real \<Rightarrow> real list" where
  "pushFrequency recent frequency =
     (let pushed = recent @ [if frequency > 0 then frequency else 0]
      in if length pushed > 3 then tl pushed else pushed)"

definition advanceState :: "DetectState \<Rightarrow> real \<Rightarrow> int \<Rightarrow> real \<Rightarrow> real \<Rightarrow> DetectState" where
  "advanceState s time vel frequency clarity =
     (let recent = pushFrequency (recentFrequencies s) frequency;
          filteredFrequency = median recent;
          noteName = frequencyToNoteName filteredFrequency
      in if noteName \<noteq> '''' \<and> clarity \<ge> clarityThreshold then
           let s1 = (if noteName = lastPitchName s
                     then s\<lparr>recentFrequencies := recent,
                            consecutiveFramesCount := consecutiveFramesCount s + 1\<rparr>
                     else s\<lparr>detectedNotes := closeCurrentNote s time,
                            recentFrequencies := recent,
                            currentNote := None,
                            lastPitchName := noteName,
                            consecutiveFramesCount := 1,
                            potentialNoteStart := Some time\<rparr>)
           in (case (consecutiveFramesCount s1 = minConsecutiveFrames, potentialNoteStart s1) of
                 (True, Some p) \<Rightarrow>
                   s1\<lparr>currentNote :=
                        Some \<lparr>partialPitch = noteName, partialStartTime = p,
                              partialVelocity = vel\<rparr>\<rparr>
               | _ \<Rightarrow>
                   (case currentNote s1 of
                      Some c \<Rightarrow>
                        s1\<lparr>currentNote :=
                             Some (c\<lparr>partialVelocity := max (partialVelocity c) vel\<rparr>)\<rparr>
                    | None \<Rightarrow> s1))
         else s\<lparr>detectedNotes := closeCurrentNote s time,
                recentFrequencies := [],
                currentNote := None,
                lastPitchName := '''',
                consecutiveFramesCount := 0,
                potentialNoteStart := None\<rparr>)"

text \<open>
  The pitch detector of the \<^verbatim>\<open>pitchy\<close> package is external.  It is a parameter that maps
  the frame (and, to cover a detector with internal state, the frame's offset) to a frequency
  and a clarity, or throws.
\<close>

type_synonym pitchDetector = "nat \<Rightarrow> real list \<Rightarrow> real \<Rightarrow> error + (real \<times> real)"

definition detectFrame ::
  "pitchDetector \<Rightarrow> real list \<Rightarrow> real \<Rightarrow> real \<Rightarrow> nat \<Rightarrow> DetectState \<Rightarrow> error + DetectState" where
  "detectFrame findPitch monoBufferData sampleRate overallRMS i s =
     (let frame = slice monoBufferData i (i + 2048);
          time = real i / sampleRate;
          frameRMS = calculateRMS frame;
          silenceThreshold = overallRMS * (8 / 100);
          found = (if frameRMS > silenceThreshold then findPitch i frame sampleRate
                   else Inr (0, 0))
      in case found of
           Inl e \<Rightarrow> Inl e
         | Inr (frequency, clarity) \<Rightarrow>
             Inr (advanceState s time (frameVelocity frameRMS overallRMS) frequency clarity))"

fun detectLoop ::
  "pitchDetector \<Rightarrow> real list \<Rightarrow> real \<Rightarrow> real \<Rightarrow> nat list \<Rightarrow> DetectState \<Rightarrow> error + DetectState" where
  "detectLoop findPitch monoBufferData sampleRate overallRMS [] s = Inr s"
| "detectLoop findPitch monoBufferData sampleRate overallRMS (i # rest) s =
     (case detectFrame findPitch monoBufferData sampleRate overallRMS i s of
        Inl e \<Rightarrow> Inl e
      | Inr s' \<Rightarrow> detectLoop findPitch monoBufferData sampleRate overallRMS rest s')"

definition initialDetectState :: DetectState where
  "initialDetectState =
     \<lparr>detectedNotes = [], recentFrequencies = [], currentNote = None, lastPitchName = '''',
      consecutiveFramesCount = 0, potentialNoteStart = None\<rparr>"

definition detectNotes :: "pitchDetector \<Rightarrow> real list \<Rightarrow> real \<Rightarrow> error + Note list" where
  "detectNotes findPitch monoBufferData sampleRate =
     (let overallRMS = calculateRMS monoBufferData
      in case detectLoop findPitch monoBufferData sampleRate overallRMS
                (frameOffsets 0 (length monoBufferData) 2048 441) initialDetectState of
           Inl e \<Rightarrow> Inl e
         | Inr s \<Rightarrow> Inr (closeCurrentNote s (real (length monoBufferData) / sampleRate)))"

section \<open>TempoEstimator\<close>

record OnsetState =
  previousRMS :: real
  rmsHistory :: "real list"
  onsetTimes :: "real list"

definition onsetFrame :: "real list \<Rightarrow> real \<Rightarrow> nat \<Rightarrow> OnsetState \<Rightarrow> OnsetState" where
  "onsetFrame buffer sampleRate i s =
     (let frame = slice buffer i (i + 1024);
          currentRMS = calculateRMS frame;
          pushed = rmsHistory s @ [currentRMS];
          history = (if length pushed > 10 then tl pushed else pushed);
          localAverageRMS = foldl (+) 0 history / real (length history)
      in \<lparr>previousRMS = currentRMS,
          rmsHistory = history,
          onsetTimes =
            (if currentRMS > previousRMS s * (3 / 2) \<and> currentRMS > localAverageRMS * (11 / 10)
                \<and> currentRMS > 1 / 100
             then onsetTimes s @ [real i / sampleRate]
             else onsetTimes s)\<rparr>)"

definition detectOnsets :: "real list \<Rightarrow> real \<Rightarrow> real list" where
  "detectOnsets buffer sampleRate =
     onsetTimes (fold (onsetFrame buffer sampleRate) (frameOffsets 0 (length buffer) 1024 256)
       \<lparr>previousRMS = 0, rmsHistory = [], onsetTimes = []\<rparr>)"

definition minTempo :: real where
  "minTempo = 60"

definition maxTempo :: real where
  "maxTempo = 180"

definition tempoRangeCheck :: "real \<Rightarrow> bool" where
  "tempoRangeCheck val = (60 / maxTempo \<le> val \<and> val \<le> 60 / minTempo)"

text \<open>The loop over \<^verbatim>\<open>i = 1 .. onsetTimes.length - 1\<close>, by recursion on the onsets.\<close>

fun ioiCandidates :: "real list \<Rightarrow> real list" where
  "ioiCandidates (previous # current # rest) =
     (let ioi = current - previous
      in (if tempoRangeCheck ioi then [ioi] else [])
         @ (if tempoRangeCheck (ioi * 2) then [ioi * 2] else [])
         @ (if tempoRangeCheck (ioi / 2) then [ioi / 2] else []))
     @ ioiCandidates (current # rest)"
| "ioiCandidates _ = []"

definition tempoFromOnsets :: "real list \<Rightarrow> real" where
  "tempoFromOnsets onsets =
     (if length onsets < 10 then 120
      else let iois = ioiCandidates onsets
           in if length iois < 5 then 120
              else let sorted = sort iois;
                       medianIOI = median sorted
                   in if medianIOI = 0 then 120
                      else let tempoBpm = 60 / medianIOI
                           in max minTempo (min maxTempo (real_of_int (round tempoBpm))))"

definition detectTempo :: "real list \<Rightarrow> real \<Rightarrow> real" where
  "detectTempo buffer sampleRate = tempoFromOnsets (detectOnsets buffer sampleRate)"

section \<open>KeyEstimator\<close>

definition majorProfile :: "real list" where
  "majorProfile = [635 / 100, 223 / 100, 348 / 100, 233 / 100, 438 / 100, 409 / 100,
                   252 / 100, 519 / 100, 239 / 100, 366 / 100, 229 / 100, 288 / 100]"

definition minorProfile :: "real list" where
  "minorProfile = [633 / 100, 268 / 100, 352 / 100, 538 / 100, 260 / 100, 353 / 100,
                   254 / 100, 475 / 100, 398 / 100, 269 / 100, 334 / 100, 317 / 100]"

definition normalizeProfile :: "real list \<Rightarrow> real list" where
  "normalizeProfile profile =
     (let total = foldl (+) 0 profile
      in map (\<lambda>val. if total = 0 then 0 else val / total) profile)"

definition normalizedMajorProfile :: "real list" where
  "normalizedMajorProfile = normalizeProfile majorProfile"

definition normalizedMinorProfile :: "real list" where
  "normalizedMinorProfile = normalizeProfile minorProfile"

text \<open>The regular expression \<^verbatim>\<open>/^([A-G]#?)/\<close>: the first capture group, if the string matches.\<close>

definition pitchClassMatch :: "string \<Rightarrow> string option" where
  "pitchClassMatch s =
     (case s of
        [] \<Rightarrow> None
      | c # rest \<Rightarrow>
          if c \<in> set ''ABCDEFG''
          then (case rest of
                  [] \<Rightarrow> Some [c]
                | d # _ \<Rightarrow> if d = CHR ''#'' then Some [c, d] else Some [c])
          else None)"

definition pitchClasses :: "string \<rightharpoonup> nat" where
  "pitchClasses = map_of (zip NOTE_NAMES [0..<12])"

record KeyHistogram =
  pitchCounts :: "real list"
  totalDuration :: real

definition countNote :: "Note \<Rightarrow> KeyHistogram \<Rightarrow> KeyHistogram" where
  "countNote note h =
     (if pitch note = '''' then h
      else case pitchClassMatch (pitch note) of
             None \<Rightarrow> h
           | Some pitchName \<Rightarrow>
               (case pitchClasses pitchName of
                  None \<Rightarrow> h
                | Some pitchClassIndex \<Rightarrow>
                    let weight = duration note * (1 / 2 + real_of_int (velocity note) / 254)
                    in \<lparr>pitchCounts =
                          (pitchCounts h)[pitchClassIndex :=
                             pitchCounts h ! pitchClassIndex + weight],
                        totalDuration = totalDuration h + weight\<rparr>))"

definition majorCorrOf :: "real list \<Rightarrow> nat \<Rightarrow> real" where
  "majorCorrOf normalizedPitchCounts i =
     foldl (\<lambda>corr j. corr + normalizedPitchCounts ! j
                       * normalizedMajorProfile ! nat (jsRem (int j - int i + 12) 12))
       0 [0..<12]"

definition minorCorrOf :: "real list \<Rightarrow> nat \<Rightarrow> real" where
  "minorCorrOf normalizedPitchCounts i =
     foldl (\<lambda>corr j. corr + normalizedPitchCounts ! j
                       * normalizedMinorProfile ! nat (jsRem (int j - int i + 12) 12))
       0 [0..<12]"

text \<open>
  \<^verbatim>\<open>maxCorrelation\<close> starts at \<^verbatim>\<open>-Infinity\<close>, which is \<open>None\<close> here: every number exceeds it.
\<close>

record KeyChoice =
  maxCorrelation :: "real option"
  bestKeyIndex :: nat
  bestKeyIsMajor :: bool

definition exceeds :: "real \<Rightarrow> real option \<Rightarrow> bool" where
  "exceeds x m = (case m of None \<Rightarrow> True | Some y \<Rightarrow> x > y)"

definition keyStep :: "real list \<Rightarrow> nat \<Rightarrow> KeyChoice \<Rightarrow> KeyChoice" where
  "keyStep normalizedPitchCounts i s =
     (let majorCorr = majorCorrOf normalizedPitchCounts i;
          minorCorr = minorCorrOf normalizedPitchCounts i;
          s1 = (if exceeds majorCorr (maxCorrelation s)
                then \<lparr>maxCorrelation = Some majorCorr, bestKeyIndex = i, bestKeyIsMajor = True\<rparr>
                else s)
      in if exceeds minorCorr (maxCorrelation s1)
         then \<lparr>maxCorrelation = Some minorCorr, bestKeyIndex = i, bestKeyIsMajor = False\<rparr>
         else s1)"

definition bestKey :: "real list \<Rightarrow> KeyChoice" where
  "bestKey normalizedPitchCounts =
     fold (keyStep normalizedPitchCounts) [0..<12]
       \<lparr>maxCorrelation = None, bestKeyIndex = 0, bestKeyIsMajor = True\<rparr>"

definition keyName :: "KeyChoice \<Rightarrow> string" where
  "keyName s =
     NOTE_NAMES ! bestKeyIndex s @ '' '' @ (if bestKeyIsMajor s then ''Major'' else ''Minor'')"

definition keyHistogram :: "Note list \<Rightarrow> KeyHistogram" where
  "keyHistogram ns = fold countNote ns \<lparr>pitchCounts = replicate 12 0, totalDuration = 0\<rparr>"

definition detectKey :: "Note list \<Rightarrow> string" where
  "detectKey ns =
     (if length ns = 0 then ''N/A''
      else let h = keyHistogram ns
           in if totalDuration h = 0 then ''N/A''
              else let normalizedPitchCounts = map (\<lambda>count. count / totalDuration h) (pitchCounts h)
                   in keyName (bestKey normalizedPitchCounts))"

section \<open>TimeSignatureEstimator\<close>

text \<open>JavaScript's \<^verbatim>\<open>%\<close> on numbers: the remainder of the division truncated towards zero.\<close>

definition jsFmod :: "real \<Rightarrow> real \<Rightarrow> real" where
  "jsFmod x y =
     (let q = x / y
      in x - y * real_of_int (if q \<ge> 0 then \<lfloor>q\<rfloor> else \<lceil>q\<rceil>))"

definition nearBoundary :: "real \<Rightarrow> real \<Rightarrow> real \<Rightarrow> bool" where
  "nearBoundary t period tolerance =
     (jsFmod t period < tolerance \<or> jsFmod t period > period - tolerance)"

definition scoreNote :: "real \<Rightarrow> Note \<Rightarrow> real \<times> real \<Rightarrow> real \<times> real" where
  "scoreNote beatDuration note scores =
     (let tolerance = beatDuration * (2 / 10);
          timeSinceStart = startTime note;
          commonTimeScore = fst scores;
          compoundTimeScore = snd scores;
          common1 = (if nearBoundary timeSinceStart beatDuration tolerance
                     then commonTimeScore + 1 else commonTimeScore);
          halfBeat = beatDuration / 2;
          common2 = (if nearBoundary timeSinceStart halfBeat tolerance
                     then common1 + 1 / 2 else common1);
          dottedQuarter = beatDuration * (3 / 2);
          compound1 = (if nearBoundary timeSinceStart dottedQuarter tolerance
                       then compoundTimeScore + 1 else compoundTimeScore);
          eighthNote = beatDuration / 2;
          compound2 = (if nearBoundary timeSinceStart (eighthNote * 3) tolerance
                       then compound1 + 1 / 2 else compound1)
      in (common2, compound2))"

definition detectTimeSignature :: "Note list \<Rightarrow> real \<Rightarrow> string" where
  "detectTimeSignature ns tempoBpm =
     (if length ns < 5 \<or> tempoBpm \<le> 0 then ''4/4''
      else let beatDuration = 60 / tempoBpm;
               scores = fold (scoreNote beatDuration) ns (0, 0)
           in if snd scores > fst scores * (11 / 10) then ''6/8'' else ''4/4'')"

section \<open>AnalysisPipeline\<close>

text \<open>
  The Web Audio \<^verbatim>\<open>AudioBuffer\<close>: planar sample data, one list per channel.  Its
  \<^verbatim>\<open>duration\<close> attribute is \<^verbatim>\<open>length / sampleRate\<close>.  A buffer handed out by the platform
  has at least one channel, every channel holds \<^verbatim>\<open>length\<close> samples, and the sample rate is
  positive.
\<close>

record AudioBuffer =
  numberOfChannels :: nat
  bufferLength :: nat
  sampleRate :: real
  channelData :: "real list list"

definition bufferDuration :: "AudioBuffer \<Rightarrow> real" where
  "bufferDuration b = real (bufferLength b) / sampleRate b"

definition validBuffer :: "AudioBuffer \<Rightarrow> bool" where
  "validBuffer b =
     (0 < numberOfChannels b \<and> length (channelData b) = numberOfChannels b
      \<and> list_all (\<lambda>c. length c = bufferLength b) (channelData b) \<and> 0 < sampleRate b)"

definition syntheticPitches :: "string list" where
  "syntheticPitches = [''C4'', ''D4'', ''E4'', ''F4'', ''G4'', ''A4'', ''B4'', ''C5'']"

definition createSyntheticNotes :: "real \<Rightarrow> Note list" where
  "createSyntheticNotes dur =
     (let noteDuration = 1 / 2;
          noteCount = max 8 \<lfloor>dur / noteDuration\<rfloor>
      in map (\<lambda>i. \<lparr>pitch = syntheticPitches ! (i mod length syntheticPitches),
                    startTime = real i * noteDuration,
                    duration = noteDuration * (9 / 10),
                    velocity = 80\<rparr>)
           [0..<nat noteCount])"

text \<open>
  \<^verbatim>\<open>context.createBuffer\<close> is external and may throw; \<open>createBufferError\<close> says when.  The new
  buffer is zero-filled, and \<^verbatim>\<open>newData.set(oldData.subarray(0, newLength))\<close> overwrites its
  beginning.
\<close>

definition truncateAudioBuffer ::
  "(nat \<Rightarrow> nat \<Rightarrow> real \<Rightarrow> error option) \<Rightarrow> AudioBuffer \<Rightarrow> real \<Rightarrow> error + AudioBuffer" where
  "truncateAudioBuffer createBufferError buffer dur =
     (let newLength = nat \<lfloor>dur * sampleRate buffer\<rfloor>
      in case createBufferError (numberOfChannels buffer) newLength (sampleRate buffer) of
           Some e \<Rightarrow> Inl e
         | None \<Rightarrow>
             Inr \<lparr>numberOfChannels = numberOfChannels buffer,
                  bufferLength = newLength,
                  sampleRate = sampleRate buffer,
                  channelData =
                    map (\<lambda>oldData. take newLength oldData
                                    @ replicate (newLength - length oldData) 0)
                      (take (numberOfChannels buffer) (channelData buffer))\<rparr>)"

text \<open>
  \<^verbatim>\<open>mixDownToMono\<close> returns \<^verbatim>\<open>null\<close> only for a missing buffer, which a value of type
  \<^typ>\<open>AudioBuffer\<close> never is.
\<close>

definition mixDownToMono :: "AudioBuffer \<Rightarrow> real list option" where
  "mixDownToMono audioBuffer =
     (let numChannels = numberOfChannels audioBuffer;
          len = bufferLength audioBuffer
      in if numChannels = 1 then Some (channelData audioBuffer ! 0)
         else Some (map (\<lambda>i. foldl (\<lambda>total j. total + channelData audioBuffer ! j ! i) 0
                                 [0..<numChannels]
                               / real numChannels)
                      [0..<len]))"

text \<open>\<^verbatim>\<open>String.prototype.trim\<close> on the ASCII white space characters.\<close>

definition isWhiteSpace :: "char \<Rightarrow> bool" where
  "isWhiteSpace c = (c \<in> set [CHR 0x09, CHR 0x0A, CHR 0x0B, CHR 0x0C, CHR 0x0D, CHR 0x20])"

definition trim :: "string \<Rightarrow> string" where
  "trim s = rev (dropWhile isWhiteSpace (rev (dropWhile isWhiteSpace s)))"

definition keepNote :: "Note \<Rightarrow> bool" where
  "keepNote note =
     (if duration note < MIN_NOTE_DURATION_SECONDS then False
      else if pitch note = '''' \<or> trim (pitch note) = '''' then False
      else True)"

text \<open>
  The merge loop.  The list is what is left of \<^verbatim>\<open>finalNotes\<close> from index \<^verbatim>\<open>i\<close> on; a merge
  consumes two elements (\<^verbatim>\<open>i++\<close> in the body and in the loop header).
\<close>

fun mergeNotes :: "Note list \<Rightarrow> Note list" where
  "mergeNotes [] = []"
| "mergeNotes [current] = [current]"
| "mergeNotes (current # next # rest) =
     (if startTime next - (startTime current + duration current) > 5 / 100
      then current # mergeNotes (next # rest)
      else if pitch next = pitch current
              \<and> startTime next - (startTime current + duration current) < 5 / 100
           then current\<lparr>duration :=
                  startTime next + duration next - startTime current\<rparr>
                # mergeNotes rest
           else current # mergeNotes (next # rest))"

text \<open>
  What \<^verbatim>\<open>analyzeAudio\<close> gets from outside: the outcome of creating the audio context and
  decoding the file, the behaviour of \<^verbatim>\<open>createBuffer\<close> and of the pitch detector, and the
  outcome of storing the result.
\<close>

record Environment =
  decodeAudioData :: "error + AudioBuffer"
  createBufferError :: "nat \<Rightarrow> nat \<Rightarrow> real \<Rightarrow> error option"
  findPitch :: pitchDetector
  storeAnalysis :: "AudioAnalysisResult \<Rightarrow> error option"

text \<open>
  The part of the \<^verbatim>\<open>try\<close> block after \<^verbatim>\<open>detectNotes\<close> has returned.  Nothing in it throws
  to the \<^verbatim>\<open>catch\<close> of \<^verbatim>\<open>analyzeAudio\<close>: storing the result has a \<^verbatim>\<open>try\<close> of its own, whose
  \<^verbatim>\<open>catch\<close> only logs.
\<close>

definition finishAnalysis ::
  "Environment \<Rightarrow> bool \<Rightarrow> AudioBuffer \<Rightarrow> real list \<Rightarrow> Note list \<Rightarrow> AudioAnalysisResult" where
  "finishAnalysis env wasTruncated processedBuffer monoBufferData detected =
     (let ns = (if length detected = 0
                then createSyntheticNotes (bufferDuration processedBuffer)
                else detected);
          tempoBpm = detectTempo monoBufferData (sampleRate processedBuffer);
          keyStr = detectKey ns;
          timeSig = detectTimeSignature ns tempoBpm;
          finalNotes = filter keepNote ns
      in if length finalNotes = 0
         then \<lparr>tempo = max 60 (round tempoBpm),
               key = keyStr,
               timeSignature = (if timeSig = '''' then ''4/4'' else timeSig),
               notes = createSyntheticNotes (bufferDuration processedBuffer),
               truncated = wasTruncated\<rparr>
         else let sortedNotes = sort_key startTime finalNotes;
                  mergedNotes = mergeNotes sortedNotes;
                  result = \<lparr>tempo = max 60 (round tempoBpm),
                            key = keyStr,
                            timeSignature = (if timeSig = '''' then ''4/4'' else timeSig),
                            notes = mergedNotes,
                            truncated = wasTruncated\<rparr>
              in (case storeAnalysis env result of
                    Some e \<Rightarrow> result
                  | None \<Rightarrow> result))"

text \<open>The body of the \<^verbatim>\<open>try\<close> block: \<open>Inl\<close> is an exception that reaches the \<^verbatim>\<open>catch\<close>.\<close>

definition analyzeBody :: "Environment \<Rightarrow> error + AudioAnalysisResult" where
  "analyzeBody env =
     (case decodeAudioData env of
        Inl e \<Rightarrow> Inl e
      | Inr originalAudioBuffer \<Rightarrow>
          let wasTruncated = (bufferDuration originalAudioBuffer > MAX_DURATION_SECONDS)
          in case (if wasTruncated
                   then truncateAudioBuffer (createBufferError env) originalAudioBuffer
                          MAX_DURATION_SECONDS
                   else Inr originalAudioBuffer) of
               Inl e \<Rightarrow> Inl e
             | Inr processedBuffer \<Rightarrow>
                 (case mixDownToMono processedBuffer of
                    None \<Rightarrow> Inl MixdownError
                  | Some monoBufferData \<Rightarrow>
                      (case detectNotes (findPitch env) monoBufferData
                              (sampleRate processedBuffer) of
                         Inl e \<Rightarrow> Inl e
                       | Inr detected \<Rightarrow>
                           Inr (finishAnalysis env wasTruncated processedBuffer monoBufferData
                                  detected))))"

definition safeDefault :: AudioAnalysisResult where
  "safeDefault =
     \<lparr>tempo = 120, key = ''C Major'', timeSignature = ''4/4'',
      notes = createSyntheticNotes 5, truncated = False\<rparr>"

definition analyzeAudio :: "Environment \<Rightarrow> AudioAnalysisResult" where
  "analyzeAudio env =
     (case analyzeBody env of
        Inl e \<Rightarrow> safeDefault
      | Inr result \<Rightarrow> result)"

section \<open>Predicates and examples used in the properties\<close>

text \<open>
  Two adjacent notes that the merge loop fuses: identical pitch and a gap under 50 ms.
\<close>

definition mergeable :: "Note \<Rightarrow> Note \<Rightarrow> bool" where
  "mergeable current next =
     (pitch next = pitch current
      \<and> startTime next - (startTime current + duration current) < 5 / 100)"

definition noMergeablePair :: "Note list \<Rightarrow> bool" where
  "noMergeablePair ns = successively (\<lambda>current next. \<not> mergeable current next) ns"

text \<open>No three consecutive notes of which the first two and the last two are mergeable.\<close>

fun noChain :: "Note list \<Rightarrow> bool" where
  "noChain (a # b # c # rest) =
     (\<not> (mergeable a b \<and> mergeable b c) \<and> noChain (b # c # rest))"
| "noChain _ = True"

text \<open>Three A4 notes of 200 ms, 10 ms apart (frame times of a 44.1 kHz buffer).\<close>

definition threeCloseNotes :: "Note list" where
  "threeCloseNotes =
     [\<lparr>pitch = ''A4'', startTime = 0, duration = 2 / 10, velocity = 80\<rparr>,
      \<lparr>pitch = ''A4'', startTime = 21 / 100, duration = 2 / 10, velocity = 80\<rparr>,
      \<lparr>pitch = ''A4'', startTime = 42 / 100, duration = 2 / 10, velocity = 80\<rparr>]"


text \<open>
  The correlation of candidate (root \<open>i\<close>, mode) and the order in which the loop of
  \<^verbatim>\<open>detectKey\<close> visits the candidates: roots ascending, major before minor.
\<close>

definition corrOf :: "real list \<Rightarrow> nat \<Rightarrow> bool \<Rightarrow> real" where
  "corrOf normalizedPitchCounts i isMajor =
     (if isMajor then majorCorrOf normalizedPitchCounts i
      else minorCorrOf normalizedPitchCounts i)"

definition visitedBefore :: "nat \<Rightarrow> bool \<Rightarrow> nat \<Rightarrow> bool \<Rightarrow> bool" where
  "visitedBefore i isMajor i' isMajor' = (i < i' \<or> (i = i' \<and> isMajor \<and> \<not> isMajor'))"

definition normalizedHistogram :: "Note list \<Rightarrow> real list" where
  "normalizedHistogram ns =
     map (\<lambda>count. count / totalDuration (keyHistogram ns)) (pitchCounts (keyHistogram ns))"

text \<open>
  One of the two comparisons in the body of the loop of \<^verbatim>\<open>detectKey\<close>, and the invariant of
  the loop: after the candidates in \<open>seen\<close> were compared, the choice is one of them, no
  candidate in \<open>seen\<close> correlates better, and those visited before the choice correlate worse.
\<close>

definition offer :: "real list \<Rightarrow> nat \<Rightarrow> bool \<Rightarrow> KeyChoice \<Rightarrow> KeyChoice" where
  "offer h i isMajor s =
     (if exceeds (corrOf h i isMajor) (maxCorrelation s)
      then \<lparr>maxCorrelation = Some (corrOf h i isMajor), bestKeyIndex = i, bestKeyIsMajor = isMajor\<rparr>
      else s)"

definition firstBest :: "real list \<Rightarrow> (nat \<times> bool) set \<Rightarrow> KeyChoice \<Rightarrow> bool" where
  "firstBest h seen s =
     ((bestKeyIndex s, bestKeyIsMajor s) \<in> seen
      \<and> maxCorrelation s = Some (corrOf h (bestKeyIndex s) (bestKeyIsMajor s))
      \<and> (\<forall>(i, m) \<in> seen. corrOf h i m \<le> corrOf h (bestKeyIndex s) (bestKeyIsMajor s))
      \<and> (\<forall>(i, m) \<in> seen. visitedBefore i m (bestKeyIndex s) (bestKeyIsMajor s)
            \<longrightarrow> corrOf h i m < corrOf h (bestKeyIndex s) (bestKeyIsMajor s)))"

definition aMinorTriad :: "Note list" where
  "aMinorTriad =
     [\<lparr>pitch = ''A4'', startTime = 0, duration = 1 / 2, velocity = 80\<rparr>,
      \<lparr>pitch = ''C5'', startTime = 1 / 2, duration = 1 / 2, velocity = 80\<rparr>,
      \<lparr>pitch = ''E5'', startTime = 1, duration = 1 / 2, velocity = 80\<rparr>]"

text \<open>
  The invariant of the loop of \<^verbatim>\<open>detectNotes\<close>, where \<open>limit\<close> is the duration of the buffer:
  every note emitted so far, the confirmed note and the potential start lie before \<open>limit\<close>.
\<close>

definition trackInv :: "real \<Rightarrow> DetectState \<Rightarrow> bool" where
  "trackInv limit s =
     (list_all (\<lambda>n. startTime n < limit) (detectedNotes s)
      \<and> (case currentNote s of None \<Rightarrow> True | Some c \<Rightarrow> partialStartTime c < limit)
      \<and> (case potentialNoteStart s of None \<Rightarrow> True | Some p \<Rightarrow> p < limit))"


text \<open>
  An example run: 5135 samples of constant amplitude at a sample rate of 441 Hz, so that the
  eight frames start one second apart, and a detector that reports 440 Hz for the first four
  frames and 880 Hz afterwards, always with full clarity.
\<close>

definition exampleBuffer :: "real list" where
  "exampleBuffer = replicate 5135 1"

definition exampleDetector :: pitchDetector where
  "exampleDetector i frame rate = Inr (if i < 1764 then 440 else 880, 1)"

text \<open>
  The note list of the result on the path without exception, as a function of the processed
  buffer's duration and of what \<^verbatim>\<open>detectNotes\<close> returned: fallback, filter, second fallback,
  sort and merge, as in \<open>analyzeBody\<close>.
\<close>

definition finalNotesOf :: "real \<Rightarrow> Note list \<Rightarrow> Note list" where
  "finalNotesOf dur detected =
     (let ns = (if length detected = 0 then createSyntheticNotes dur else detected);
          finalNotes = filter keepNote ns
      in if length finalNotes = 0 then createSyntheticNotes dur
         else mergeNotes (sort_key startTime finalNotes))"

text \<open>A buffer of 90 seconds (90 samples at 1 Hz, one channel) and an environment around it.\<close>

definition longBuffer :: AudioBuffer where
  "longBuffer =
     \<lparr>numberOfChannels = 1, bufferLength = 90, sampleRate = 1, channelData = [replicate 90 0]\<rparr>"

definition longEnvironment :: Environment where
  "longEnvironment =
     \<lparr>decodeAudioData = Inr longBuffer,
      createBufferError = (\<lambda>channels len rate. None),
      findPitch = (\<lambda>i frame rate. Inr (0, 0)),
      storeAnalysis = (\<lambda>result. Some StorageError)\<rparr>"

definition failingEnvironment :: Environment where
  "failingEnvironment =
     \<lparr>decodeAudioData = Inl DecodeError,
      createBufferError = (\<lambda>channels len rate. None),
      findPitch = (\<lambda>i frame rate. Inr (0, 0)),
      storeAnalysis = (\<lambda>result. None)\<rparr>"

text \<open>The example run of the detector as an input of the whole pipeline.\<close>

definition exampleEnvironment :: Environment where
  "exampleEnvironment =
     \<lparr>decodeAudioData =
        Inr \<lparr>numberOfChannels = 1, bufferLength = 5135, sampleRate = 441,
             channelData = [exampleBuffer]\<rparr>,
      createBufferError = (\<lambda>channels len rate. None),
      findPitch = exampleDetector,
      storeAnalysis = (\<lambda>result. None)\<rparr>"

text \<open>The same input with a pitch detector that throws on every call.\<close>

definition throwingEnvironment :: Environment where
  "throwingEnvironment =
     exampleEnvironment\<lparr>findPitch := (\<lambda>i frame rate. Inl PitchDetectorError)\<rparr>"

section \<open>Properties of PitchNamer\<close>

text \<open>
  In exact arithmetic the deviation in cents is 100 times the distance of the MIDI number to
  its rounding.  The lemmas below use this to evaluate \<open>frequencyToNoteName\<close> at frequencies
  far from a quarter-tone boundary, where the rounding of doubles does not change the result.
\<close>


lemma centsDeviationOf_eq:
  assumes "0 < f"
  shows "centsDeviationOf f r = 100 * (midiNumberOf f - real_of_int r)"
proof -
  have "log 2 (f / (440 * 2 powr (real_of_int (r - 69) / 12)))
      = log 2 (f / 440) - log 2 (2 powr (real_of_int (r - 69) / 12))"
    using assms by (simp add: log_divide log_mult)
  also have "log 2 (2 powr (real_of_int (r - 69) / 12)) = real_of_int (r - 69) / 12"
    by simp
  finally have "1200 * log 2 (f / (440 * 2 powr (real_of_int (r - 69) / 12)))
      = 1200 * (log 2 (f / 440) - real_of_int (r - 69) / 12)" by (rule arg_cong)
  also have "\<dots> = 100 * (12 * log 2 (f / 440) + 69 - real_of_int r)"
    by (simp add: field_simps)
  finally show ?thesis by (simp add: centsDeviationOf_def midiNumberOf_def)
qed

lemma round_distance: "\<bar>x - real_of_int (round x)\<bar> \<le> 1 / 2"
  using of_int_round_abs_le[of x] by (simp add: abs_minus_commute)

lemma centsDeviationOf_round:
  assumes "0 < f"
  shows "\<bar>centsDeviationOf f (round (midiNumberOf f))\<bar> \<le> 50"
proof -
  define d where "d = midiNumberOf f - real_of_int (round (midiNumberOf f))"
  have "\<bar>d\<bar> \<le> 1 / 2" unfolding d_def by (rule round_distance)
  then have "\<bar>100 * d\<bar> \<le> 50" by (simp add: abs_mult)
  then show ?thesis unfolding d_def centsDeviationOf_eq[OF assms] .
qed

lemma frequencyToNoteName_rounded:
  "frequencyToNoteName f =
     (if f \<le> 10 \<or> round (midiNumberOf f) < 21 \<or> round (midiNumberOf f) > 108
      then ''''
      else NOTE_NAMES ! nat (jsRem (round (midiNumberOf f)) 12)
           @ intToString (\<lfloor>real_of_int (round (midiNumberOf f)) / 12\<rfloor> - 1))"
proof (cases "f \<le> 10")
  case True
  then show ?thesis by (simp add: frequencyToNoteName_def)
next
  case False
  then have pos: "0 < f" by simp
  have gate: "\<not> \<bar>centsDeviationOf f (round (midiNumberOf f))\<bar> > 50"
    using centsDeviationOf_round[OF pos] by simp
  from False have "f \<noteq> 0" by simp
  with False gate show ?thesis
    unfolding frequencyToNoteName_def Let_def by simp
qed

lemma natToString_nonempty: "natToString n \<noteq> []"
  by (subst natToString.simps) simp

lemma intToString_nonempty: "intToString k \<noteq> []"
  by (simp add: intToString_def natToString_nonempty)

lemma round_midi_440: "round (midiNumberOf 440) = 69"
  by (simp add: midiNumberOf_def)

lemma round_midi_452: "round (midiNumberOf 452) = 69"
proof -
  define l where "l = log 2 (452 / 440 :: real)"
  have a: "0 \<le> l" unfolding l_def by simp
  have "log 2 ((452 / 440 :: real) ^ 24) < log 2 2"
    by (subst log_less_cancel_iff) (simp_all add: power_divide)
  then have b: "24 * l < 1" unfolding l_def by (simp add: log_nat_power)
  have "round (12 * l + 69) = 69"
    unfolding round_def using a b by (intro floor_unique) simp_all
  then show ?thesis unfolding l_def midiNumberOf_def .
qed

lemma round_midi_466_5: "round (midiNumberOf (933 / 2)) = 70"
proof -
  define l where "l = log 2 ((933 / 2) / 440 :: real)"
  have "log 2 2 \<le> log 2 (((933 / 2) / 440 :: real) ^ 24)"
    by (subst log_le_cancel_iff) (simp_all add: power_divide)
  then have a: "1 \<le> 24 * l" unfolding l_def by (simp add: log_nat_power)
  have "log 2 (((933 / 2) / 440 :: real) ^ 8) < log 2 2"
    by (subst log_less_cancel_iff) (simp_all add: power_divide)
  then have b: "8 * l < 1" unfolding l_def by (simp add: log_nat_power)
  have "round (12 * l + 69) = 70"
    unfolding round_def using a b by (intro floor_unique) simp_all
  then show ?thesis unfolding l_def midiNumberOf_def .
qed

lemma name_440: "frequencyToNoteName 440 = ''A4''"
  unfolding frequencyToNoteName_rounded using round_midi_440
  by (simp add: NOTE_NAMES_def jsRem_def intToString_def digitChar_def)

lemma name_5: "frequencyToNoteName 5 = ''''"
  by (simp add: frequencyToNoteName_def)

lemma name_452: "frequencyToNoteName 452 = ''A4''"
  unfolding frequencyToNoteName_rounded using round_midi_452
  by (simp add: NOTE_NAMES_def jsRem_def intToString_def digitChar_def)

lemma name_466_5: "frequencyToNoteName (933 / 2) = ''A#4''"
  unfolding frequencyToNoteName_rounded using round_midi_466_5
  by (simp add: NOTE_NAMES_def jsRem_def intToString_def digitChar_def)

text \<open>
  Claim C3, as stated, fails: 466.5 Hz is not at the boundary of the 50-cent gate around A4
  but 1.2 cents above A#4 (466.16 Hz), and \<open>frequencyToNoteName\<close> names it.
\<close>

theorem pitchNamer_466_5_counterexample:
  "frequencyToNoteName (4665 / 10) \<noteq> ''''"
  using name_466_5 by simp

text \<open>
  Claim C3, amended: \<open>frequencyToNoteName 440 = A4\<close>, \<open>frequencyToNoteName 5\<close> is empty,
  \<open>frequencyToNoteName 452 = A4\<close> (46.6 cents above A4), and
  \<open>frequencyToNoteName 466.5 = A#4\<close>.
\<close>

theorem pitchNamer_vectors:
  "frequencyToNoteName 440 = ''A4'' \<and> frequencyToNoteName 5 = ''''
   \<and> frequencyToNoteName 452 = ''A4'' \<and> frequencyToNoteName (4665 / 10) = ''A#4''"
  using name_440 name_5 name_452 name_466_5 by simp

section \<open>Properties of the merge pass\<close>

lemma length_mergeNotes: "length (mergeNotes ns) \<le> length ns"
  by (induction ns rule: mergeNotes.induct) auto

lemma mergeNotes_fixed_iff: "mergeNotes ns = ns \<longleftrightarrow> noMergeablePair ns"
proof (induction ns rule: mergeNotes.induct)
  case 1
  show ?case by (simp add: noMergeablePair_def)
next
  case (2 current)
  show ?case by (simp add: noMergeablePair_def)
next
  case (3 c n rest)
  show ?case
  proof (cases "mergeable c n")
    case True
    have "length (mergeNotes rest) \<le> length rest" by (rule length_mergeNotes)
    then have "mergeNotes (c # n # rest) \<noteq> c # n # rest"
      using True by (auto simp: mergeable_def)
    then show ?thesis using True by (simp add: noMergeablePair_def)
  next
    case False
    then have step: "mergeNotes (c # n # rest) = c # mergeNotes (n # rest)"
      by (auto simp: mergeable_def)
    have ih: "mergeNotes (n # rest) = n # rest \<longleftrightarrow> noMergeablePair (n # rest)"
    proof (cases "startTime n - (startTime c + duration c) > 5 / 100")
      case True
      then show ?thesis by (rule "3.IH"(1))
    next
      case far: False
      with False have "\<not> (pitch n = pitch c
          \<and> startTime n - (startTime c + duration c) < 5 / 100)"
        by (simp add: mergeable_def)
      with far show ?thesis by (rule "3.IH"(3))
    qed
    have "noMergeablePair (c # n # rest) \<longleftrightarrow> noMergeablePair (n # rest)"
      using False by (simp add: noMergeablePair_def)
    with step ih show ?thesis by simp
  qed
qed

lemma mergeNotes_step:
  "mergeNotes (c # n # rest) =
     (if mergeable c n
      then c\<lparr>duration := startTime n + duration n - startTime c\<rparr> # mergeNotes rest
      else c # mergeNotes (n # rest))"
  by (auto simp: mergeable_def)

lemma noChain_tail: "noChain (a # ns) \<Longrightarrow> noChain ns"
  by (cases ns rule: noChain.cases) (auto elim: noChain.elims)

lemma hd_mergeNotes:
  "ns \<noteq> [] \<Longrightarrow> mergeNotes ns \<noteq> []
     \<and> pitch (hd (mergeNotes ns)) = pitch (hd ns)
     \<and> startTime (hd (mergeNotes ns)) = startTime (hd ns)"
  by (cases ns rule: mergeNotes.cases)
    (simp_all del: mergeNotes.simps(3) add: mergeNotes_step)

lemma mergeable_second:
  "pitch b' = pitch b \<Longrightarrow> startTime b' = startTime b \<Longrightarrow> mergeable a b' = mergeable a b"
  by (simp add: mergeable_def)

lemma mergeable_merged:
  "mergeable c n \<Longrightarrow>
   mergeable (c\<lparr>duration := startTime n + duration n - startTime c\<rparr>) x = mergeable n x"
  by (auto simp: mergeable_def)

lemma noChain_merged: "noChain ns \<Longrightarrow> noMergeablePair (mergeNotes ns)"
proof (induction ns rule: induct_list012)
  case 1
  show ?case by (simp add: noMergeablePair_def)
next
  case (2 c)
  show ?case by (simp add: noMergeablePair_def)
next
  case (3 c n rest)
  from "3.prems" have chainN: "noChain (n # rest)" by (rule noChain_tail)
  then have chainR: "noChain rest" by (rule noChain_tail)
  show ?case
  proof (cases "mergeable c n")
    case True
    let ?m = "c\<lparr>duration := startTime n + duration n - startTime c\<rparr>"
    have tail: "noMergeablePair (mergeNotes rest)" using "3.IH"(1)[OF chainR] .
    have "mergeNotes rest = [] \<or> \<not> mergeable ?m (hd (mergeNotes rest))"
    proof (cases rest)
      case Nil
      then show ?thesis by simp
    next
      case (Cons x rest')
      with "3.prems" True have "\<not> mergeable n x" by simp
      then have "\<not> mergeable ?m x" using mergeable_merged[OF True] by simp
      moreover have "pitch (hd (mergeNotes rest)) = pitch x"
        and "startTime (hd (mergeNotes rest)) = startTime x"
        using hd_mergeNotes[of rest] Cons by simp_all
      ultimately show ?thesis using mergeable_second by blast
    qed
    with tail True show ?thesis
      by (simp del: mergeNotes.simps(3) add: mergeNotes_step noMergeablePair_def successively_Cons)
  next
    case False
    have tail: "noMergeablePair (mergeNotes (n # rest))" using "3.IH"(2)[OF chainN] .
    have "pitch (hd (mergeNotes (n # rest))) = pitch n"
      and "startTime (hd (mergeNotes (n # rest))) = startTime n"
      using hd_mergeNotes[of "n # rest"] by simp_all
    then have "\<not> mergeable c (hd (mergeNotes (n # rest)))"
      using False mergeable_second by blast
    with tail False show ?thesis
      by (simp del: mergeNotes.simps(3) add: mergeNotes_step noMergeablePair_def successively_Cons)
  qed
qed


text \<open>
  Claim C4: the merge pass is idempotent.  The code misses this on a run of three mergeable
  notes: it fuses the first two, skips the absorbed note and never compares the fused note
  with the third.  On three A4 notes 10 ms apart the first pass leaves two A4 notes 10 ms
  apart, which are mergeable, and a second pass fuses them; so the pass applied to its own
  output changes it, and the output still holds notes that are very close to each other,
  which the loop is there to merge.
\<close>

theorem merge_pass_leaves_mergeable_pair:
  "mergeNotes threeCloseNotes =
     [\<lparr>pitch = ''A4'', startTime = 0, duration = 41 / 100, velocity = 80\<rparr>,
      \<lparr>pitch = ''A4'', startTime = 42 / 100, duration = 2 / 10, velocity = 80\<rparr>]
   \<and> mergeable \<lparr>pitch = ''A4'', startTime = 0, duration = 41 / 100, velocity = 80\<rparr>
                \<lparr>pitch = ''A4'', startTime = 42 / 100, duration = 2 / 10, velocity = 80\<rparr>
   \<and> mergeNotes (mergeNotes threeCloseNotes) =
     [\<lparr>pitch = ''A4'', startTime = 0, duration = 62 / 100, velocity = 80\<rparr>]
   \<and> mergeNotes (mergeNotes threeCloseNotes) \<noteq> mergeNotes threeCloseNotes"
  by (simp add: threeCloseNotes_def mergeable_def)

text \<open>
  Outside such runs the merge pass is idempotent: when the input has no three consecutive
  notes that are mergeable pair by pair, the output has no mergeable pair left and a second
  pass returns it unchanged.
\<close>

lemma merge_idempotent_without_runs:
  "noChain ns \<Longrightarrow> mergeNotes (mergeNotes ns) = mergeNotes ns"
  using noChain_merged mergeNotes_fixed_iff by blast

section \<open>Properties of TempoEstimator\<close>

lemma median_sort: "median (sort xs) = median xs"
  by (simp add: median_def sorted_sort_id)

lemma median_lower_bound:
  assumes "xs \<noteq> []" and "\<forall>x \<in> set xs. c \<le> x"
  shows "c \<le> median xs"
proof -
  let ?s = "sort xs"
  have len: "length ?s = length xs" by simp
  have pos: "0 < length xs" using assms(1) by simp
  have elem: "\<And>k. k < length xs \<Longrightarrow> c \<le> ?s ! k"
  proof -
    fix k assume "k < length xs"
    then have "?s ! k \<in> set ?s" using len by (metis nth_mem)
    then show "c \<le> ?s ! k" using assms(2) by simp
  qed
  have mid: "length xs div 2 < length xs" using pos by simp
  have mid1: "length xs div 2 - 1 < length xs" using pos by arith
  show ?thesis
  proof (cases "length xs mod 2 \<noteq> 0")
    case True
    then show ?thesis using assms(1) elem[OF mid] by (simp add: median_def Let_def)
  next
    case False
    have "c \<le> (?s ! (length xs div 2 - 1) + ?s ! (length xs div 2)) / 2"
      using elem[OF mid] elem[OF mid1] by simp
    then show ?thesis using False assms(1) by (simp add: median_def Let_def)
  qed
qed

lemma ioiCandidates_all: "list_all tempoRangeCheck (ioiCandidates onsets)"
  by (induction onsets rule: ioiCandidates.induct) (simp_all add: Let_def)

lemma ioiCandidates_range: "x \<in> set (ioiCandidates onsets) \<Longrightarrow> tempoRangeCheck x"
  using ioiCandidates_all[of onsets] by (simp add: list_all_iff)

lemma median_candidates_pos:
  assumes "ioiCandidates onsets \<noteq> []"
  shows "0 < median (ioiCandidates onsets)"
proof -
  have "\<forall>x \<in> set (ioiCandidates onsets). 1 / 3 \<le> x"
    using ioiCandidates_range by (auto simp: tempoRangeCheck_def maxTempo_def)
  then have "1 / 3 \<le> median (ioiCandidates onsets)"
    using assms by (intro median_lower_bound) auto
  then show ?thesis by simp
qed

lemma ioiCandidates_intervals:
  "ioiCandidates onsets =
     concat (map (\<lambda>ioi. filter (\<lambda>v. 60 / 180 \<le> v \<and> v \<le> 60 / 60) [ioi, ioi * 2, ioi / 2])
       (map (\<lambda>(previous, current). current - previous) (zip onsets (tl onsets))))"
  by (induction onsets rule: ioiCandidates.induct)
    (simp_all add: Let_def tempoRangeCheck_def minTempo_def maxTempo_def)

lemma median_formula:
  "xs \<noteq> [] \<Longrightarrow>
   median xs = (if odd (length (sort xs)) then sort xs ! (length (sort xs) div 2)
                else (sort xs ! (length (sort xs) div 2 - 1) + sort xs ! (length (sort xs) div 2)) / 2)"
  by (simp add: median_def Let_def odd_iff_mod_2_eq_one)

lemma length_filter_sort: "length (filter P (sort xs)) = length (filter P xs)"
  by (simp add: filter_sort)

lemma sorted_count_le:
  assumes "sorted s" and "k < length s" and "s ! k \<le> m"
  shows "Suc k \<le> length (filter (\<lambda>x. x \<le> m) s)"
proof -
  have "\<forall>x \<in> set (take (Suc k) s). x \<le> m"
  proof
    fix x assume "x \<in> set (take (Suc k) s)"
    then obtain i where "i < Suc k" and "x = s ! i"
      using assms(2) by (auto simp: in_set_conv_nth)
    then have "x \<le> s ! k" using assms(1,2) by (simp add: sorted_nth_mono)
    then show "x \<le> m" using assms(3) by simp
  qed
  then have "filter (\<lambda>x. x \<le> m) (take (Suc k) s) = take (Suc k) s" by simp
  then have "length (filter (\<lambda>x. x \<le> m) (take (Suc k) s)) = Suc k"
    using assms(2) by simp
  moreover have "length (filter (\<lambda>x. x \<le> m) (take (Suc k) s))
      \<le> length (filter (\<lambda>x. x \<le> m) s)"
    by (metis append_take_drop_id filter_append le_add1 length_append)
  ultimately show ?thesis by simp
qed

lemma sorted_count_ge:
  assumes "sorted s" and "k < length s" and "m \<le> s ! k"
  shows "length s - k \<le> length (filter (\<lambda>x. m \<le> x) s)"
proof -
  have "\<forall>x \<in> set (drop k s). m \<le> x"
  proof
    fix x assume "x \<in> set (drop k s)"
    then obtain i where "i < length s - k" and "x = s ! (k + i)"
      by (auto simp: in_set_conv_nth)
    then have "s ! k \<le> x" using assms(1) by (simp add: sorted_nth_mono)
    then show "m \<le> x" using assms(3) by simp
  qed
  then have "filter (\<lambda>x. m \<le> x) (drop k s) = drop k s" by simp
  then have "length (filter (\<lambda>x. m \<le> x) (drop k s)) = length s - k" by simp
  moreover have "length (filter (\<lambda>x. m \<le> x) (drop k s))
      \<le> length (filter (\<lambda>x. m \<le> x) s)"
    by (metis append_take_drop_id filter_append le_add2 length_append)
  ultimately show ?thesis by simp
qed

lemma median_halves:
  assumes "xs \<noteq> []"
  shows "length xs \<le> 2 * length (filter (\<lambda>x. x \<le> median xs) xs)
    \<and> length xs \<le> 2 * length (filter (\<lambda>x. median xs \<le> x) xs)"
proof -
  define s where "s = sort xs"
  define k where "k = length s div 2"
  have srt: "sorted s" and len: "length s = length xs" by (simp_all add: s_def)
  have pos: "0 < length s" using assms len by simp
  have k: "k < length s" using pos by (simp add: k_def)
  have lo: "length (filter (\<lambda>x. x \<le> median xs) xs) = length (filter (\<lambda>x. x \<le> median xs) s)"
    and hi: "length (filter (\<lambda>x. median xs \<le> x) xs) = length (filter (\<lambda>x. median xs \<le> x) s)"
    by (simp_all add: s_def length_filter_sort)
  show ?thesis
  proof (cases "odd (length s)")
    case True
    then have m: "median xs = s ! k"
      using assms by (simp add: median_formula s_def k_def)
    have "Suc k \<le> length (filter (\<lambda>x. x \<le> median xs) s)"
      using sorted_count_le[OF srt k] m by simp
    moreover have "length s - k \<le> length (filter (\<lambda>x. median xs \<le> x) s)"
      using sorted_count_ge[OF srt k] m by simp
    ultimately show ?thesis unfolding lo hi using len k_def by linarith
  next
    case False
    then have m: "median xs = (s ! (k - 1) + s ! k) / 2"
      using assms by (simp add: median_formula s_def k_def)
    from False obtain j where j: "length s = 2 * j" by (auto elim: evenE)
    with pos have k1: "0 < k" and even: "length s = 2 * k"
      by (simp_all add: k_def)
    have k1lt: "k - 1 < length s" using k by simp
    have "s ! (k - 1) \<le> s ! k" using srt k by (simp add: sorted_nth_mono)
    then have a: "s ! (k - 1) \<le> median xs" and b: "median xs \<le> s ! k"
      unfolding m by simp_all
    have "Suc (k - 1) \<le> length (filter (\<lambda>x. x \<le> median xs) s)"
      using sorted_count_le[OF srt k1lt a] .
    moreover have "length s - k \<le> length (filter (\<lambda>x. median xs \<le> x) s)"
      using sorted_count_ge[OF srt k b] .
    ultimately show ?thesis unfolding lo hi using len even k1 by linarith
  qed
qed

text \<open>
  Claim C6: \<open>detectTempo\<close> returns the default 120 when fewer than 10 onsets are detected or
  fewer than 5 candidates survive, where the candidates are, for each interval between
  consecutive onsets, the interval, its double and its half, as far as they lie in the range
  from 60/180 to 60/60 seconds; otherwise it returns 60 divided by the median of the
  candidates (the middle one in sorted order, or the mean of the two middle ones), rounded
  and clamped to 60..180.  The guard on a zero median in the code never fires, since every
  candidate is at least 1/3.
\<close>

theorem tempo_estimate:
  "detectTempo buffer rate =
     (let onsets = detectOnsets buffer rate;
          iois = map (\<lambda>(previous, current). current - previous) (zip onsets (tl onsets));
          candidates = concat (map (\<lambda>ioi. filter (\<lambda>v. 60 / 180 \<le> v \<and> v \<le> 60 / 60)
                                            [ioi, ioi * 2, ioi / 2]) iois);
          sorted = sort candidates;
          mid = length sorted div 2;
          medianIOI = (if odd (length sorted) then sorted ! mid
                       else (sorted ! (mid - 1) + sorted ! mid) / 2)
      in if length onsets < 10 \<or> length candidates < 5 then 120
         else real_of_int (max 60 (min 180 (round (60 / medianIOI)))))"
proof -
  let ?c = "ioiCandidates (detectOnsets buffer rate)"
  show ?thesis
  proof (cases "length (detectOnsets buffer rate) < 10 \<or> length ?c < 5")
    case True
    then show ?thesis
      unfolding Let_def ioiCandidates_intervals[symmetric]
      by (auto simp: detectTempo_def tempoFromOnsets_def Let_def)
  next
    case False
    then have ne: "?c \<noteq> []" by auto
    then have "median ?c \<noteq> 0" using median_candidates_pos by fastforce
    with False have "detectTempo buffer rate
        = real_of_int (max 60 (min 180 (round (60 / median ?c))))"
      by (simp add: detectTempo_def tempoFromOnsets_def Let_def median_sort
          minTempo_def maxTempo_def)
    then show ?thesis
      unfolding Let_def ioiCandidates_intervals[symmetric]
      using False median_formula[OF ne] by simp
  qed
qed

text \<open>
  An example: ten onsets half a second apart.  Each interval 0.5 and its double 1.0 pass the
  range check, the median of the eighteen candidates is 0.75, and the estimate is 80.
\<close>

lemma tempoFromOnsets_half_second_pulses:
  "tempoFromOnsets [0, 1/2, 1, 3/2, 2, 5/2, 3, 7/2, 4, 9/2] = 80"
  by (simp add: tempoFromOnsets_def tempoRangeCheck_def minTempo_def maxTempo_def median_def Let_def)

section \<open>Properties of KeyEstimator\<close>

lemma keyStep_offer: "keyStep h i s = offer h i False (offer h i True s)"
  by (simp add: keyStep_def offer_def corrOf_def Let_def)

lemma offer_initial:
  "firstBest h {(0, True)}
     (offer h 0 True \<lparr>maxCorrelation = None, bestKeyIndex = 0, bestKeyIsMajor = True\<rparr>)"
  by (simp add: offer_def exceeds_def firstBest_def visitedBefore_def)

lemma offer_firstBest:
  assumes inv: "firstBest h seen s"
    and later: "\<And>j m'. (j, m') \<in> seen \<Longrightarrow> visitedBefore j m' i m"
    and notBefore: "\<And>j m'. (j, m') \<in> seen \<Longrightarrow> \<not> visitedBefore i m j m'"
  shows "firstBest h (insert (i, m) seen) (offer h i m s)"
proof -
  let ?bi = "bestKeyIndex s" and ?bm = "bestKeyIsMajor s"
  from inv have best: "(?bi, ?bm) \<in> seen"
    and cur: "maxCorrelation s = Some (corrOf h ?bi ?bm)"
    and maxi: "\<And>j m'. (j, m') \<in> seen \<Longrightarrow> corrOf h j m' \<le> corrOf h ?bi ?bm"
    and first: "\<And>j m'. (j, m') \<in> seen \<Longrightarrow> visitedBefore j m' ?bi ?bm
                  \<Longrightarrow> corrOf h j m' < corrOf h ?bi ?bm"
    unfolding firstBest_def by auto
  have irrefl: "\<not> visitedBefore i m i m" by (simp add: visitedBefore_def)
  show ?thesis
  proof (cases "corrOf h i m > corrOf h ?bi ?bm")
    case True
    then have new: "offer h i m s =
        \<lparr>maxCorrelation = Some (corrOf h i m), bestKeyIndex = i, bestKeyIsMajor = m\<rparr>"
      by (simp add: offer_def exceeds_def cur)
    have "\<And>j m'. (j, m') \<in> seen \<Longrightarrow> corrOf h j m' < corrOf h i m"
      using maxi True by fastforce
    then show ?thesis
      unfolding new firstBest_def using irrefl by (auto simp: less_imp_le)
  next
    case False
    then have same: "offer h i m s = s"
      by (simp add: offer_def exceeds_def cur)
    have "\<not> visitedBefore i m ?bi ?bm" using notBefore[OF best] .
    then show ?thesis
      unfolding same firstBest_def using best cur maxi first False by auto
  qed
qed

lemma keyStep_initial:
  "firstBest h {(i, m). i < Suc 0}
     (keyStep h 0 \<lparr>maxCorrelation = None, bestKeyIndex = 0, bestKeyIsMajor = True\<rparr>)"
proof -
  have "firstBest h (insert (0, False) {(0, True)})
     (offer h 0 False (offer h 0 True \<lparr>maxCorrelation = None, bestKeyIndex = 0, bestKeyIsMajor = True\<rparr>))"
    by (rule offer_firstBest[OF offer_initial]) (auto simp: visitedBefore_def)
  moreover have "insert (0, False) {(0, True)} = {(i, m). i < Suc 0}"
    by auto
  ultimately show ?thesis by (simp add: keyStep_offer)
qed

lemma keyStep_firstBest:
  assumes "firstBest h {(i, m). i < k} s"
  shows "firstBest h {(i, m). i < Suc k} (keyStep h k s)"
proof -
  have one: "firstBest h (insert (k, True) {(i, m). i < k}) (offer h k True s)"
    by (rule offer_firstBest[OF assms]) (auto simp: visitedBefore_def)
  have two: "firstBest h (insert (k, False) (insert (k, True) {(i, m). i < k}))
      (offer h k False (offer h k True s))"
    by (rule offer_firstBest[OF one]) (auto simp: visitedBefore_def)
  have "insert (k, False) (insert (k, True) {(i, m). i < k}) = {(i, m). i < Suc k}"
    by (auto simp: less_Suc_eq)
  with two show ?thesis by (simp add: keyStep_offer)
qed

lemma fold_keyStep_firstBest:
  "firstBest h {(i, m). i < Suc k}
     (fold (keyStep h) [0..<Suc k]
        \<lparr>maxCorrelation = None, bestKeyIndex = 0, bestKeyIsMajor = True\<rparr>)"
proof (induction k)
  case 0
  show ?case using keyStep_initial[of h] by simp
next
  case (Suc k)
  have "fold (keyStep h) [0..<Suc (Suc k)] \<lparr>maxCorrelation = None, bestKeyIndex = 0, bestKeyIsMajor = True\<rparr>
      = keyStep h (Suc k) (fold (keyStep h) [0..<Suc k]
          \<lparr>maxCorrelation = None, bestKeyIndex = 0, bestKeyIsMajor = True\<rparr>)"
    by (simp del: upt_Suc add: upt_Suc_append[of 0 "Suc k"])
  then show ?case using keyStep_firstBest[OF Suc] by simp
qed

lemma bestKey_firstBest: "firstBest h {(i, m). i < 12} (bestKey h)"
proof -
  have "[0..<12] = [0..<Suc 11]" by simp
  then show ?thesis
    unfolding bestKey_def using fold_keyStep_firstBest[of h 11] by (simp del: upt_Suc)
qed

lemma detectKey_bestKey:
  assumes "ns \<noteq> []" and "totalDuration (keyHistogram ns) \<noteq> 0"
  shows "detectKey ns = keyName (bestKey (normalizedHistogram ns))"
  using assms by (simp add: detectKey_def normalizedHistogram_def Let_def)

text \<open>Evaluation of the estimator on concrete histograms.\<close>

lemma upt12: "[0..<12] = [0, 1, 2, 3, 4, 5, 6, 7, 8, 9, 10, 11]"
  by code_simp

lemma hist_Am: "keyHistogram aMinorTriad
  = \<lparr>pitchCounts =
    [207 / 508, 0, 0, 0, 207 / 508, 0, 0, 0, 0, 207 / 508, 0, 0],
    totalDuration = 621 / 508\<rparr>"
  by (simp add: aMinorTriad_def keyHistogram_def countNote_def pitchClassMatch_def pitchClasses_def NOTE_NAMES_def upt12 numeral_eq_Suc Let_def)

lemma nhist_Am: "normalizedHistogram aMinorTriad
  = [1 / 3, 0, 0, 0, 1 / 3, 0, 0, 0, 0, 1 / 3, 0, 0]"
  unfolding normalizedHistogram_def hist_Am by simp

lemma major_norm: "normalizedMajorProfile = [635 / 4179, 223 / 4179, 348 / 4179, 233 / 4179, 438 / 4179, 409 / 4179,
                   252 / 4179, 519 / 4179, 239 / 4179, 366 / 4179, 229 / 4179, 288 / 4179]"
  by (simp add: normalizedMajorProfile_def normalizeProfile_def majorProfile_def)

lemma minor_norm: "normalizedMinorProfile = [633 / 4451, 268 / 4451, 352 / 4451, 538 / 4451, 260 / 4451, 353 / 4451,
                   254 / 4451, 475 / 4451, 398 / 4451, 269 / 4451, 334 / 4451, 317 / 4451]"
  by (simp add: normalizedMinorProfile_def normalizeProfile_def minorProfile_def)

lemma corr_Am_C: "corrOf [1 / 3, 0, 0, 0, 1 / 3, 0, 0, 0, 0, 1 / 3, 0, 0] 0 True = 1439 / 12537"
  by (simp add: corrOf_def majorCorrOf_def major_norm upt12 jsRem_def)

lemma corr_Am_Am: "corrOf [1 / 3, 0, 0, 0, 1 / 3, 0, 0, 0, 0, 1 / 3, 0, 0] 9 False = 1646 / 13353"
  by (simp add: corrOf_def minorCorrOf_def minor_norm upt12 jsRem_def)


lemma bestKey_Am: "bestKey [1 / 3, 0, 0, 0, 1 / 3, 0, 0, 0, 0, 1 / 3, 0, 0]
   = \<lparr>maxCorrelation = Some (1646 / 13353), bestKeyIndex = 9, bestKeyIsMajor = False\<rparr>"
  by (simp add: bestKey_def keyStep_def exceeds_def majorCorrOf_def minorCorrOf_def
      major_norm minor_norm upt12 jsRem_def Let_def)

lemma bestKey_tie:
  "bestKey (replicate 12 (1 / 12))
   = \<lparr>maxCorrelation = Some (1 / 12), bestKeyIndex = 0, bestKeyIsMajor = True\<rparr>"
  by (simp add: bestKey_def keyStep_def exceeds_def majorCorrOf_def minorCorrOf_def
      major_norm minor_norm upt12 jsRem_def Let_def numeral_eq_Suc)

text \<open>
  Claim C7: for a note list with non-zero total weight, \<open>detectKey\<close> names the candidate
  chosen by \<open>bestKey\<close>; that candidate has a root below 12, no candidate among the 24
  correlates better, and every candidate visited before it (roots ascending, major before
  minor) correlates strictly worse.  So among several candidates with the maximal correlation
  the first one visited is returned.
\<close>

theorem key_estimate:
  assumes "ns \<noteq> []" and "totalDuration (keyHistogram ns) \<noteq> 0"
  shows "detectKey ns = keyName (bestKey (normalizedHistogram ns))
    \<and> bestKeyIndex (bestKey (normalizedHistogram ns)) < 12
    \<and> (\<forall>i<12. \<forall>m. corrOf (normalizedHistogram ns) i m
          \<le> corrOf (normalizedHistogram ns) (bestKeyIndex (bestKey (normalizedHistogram ns)))
               (bestKeyIsMajor (bestKey (normalizedHistogram ns))))
    \<and> (\<forall>i<12. \<forall>m. visitedBefore i m (bestKeyIndex (bestKey (normalizedHistogram ns)))
               (bestKeyIsMajor (bestKey (normalizedHistogram ns)))
          \<longrightarrow> corrOf (normalizedHistogram ns) i m
          < corrOf (normalizedHistogram ns) (bestKeyIndex (bestKey (normalizedHistogram ns)))
               (bestKeyIsMajor (bestKey (normalizedHistogram ns))))"
  using detectKey_bestKey[OF assms] bestKey_firstBest[of "normalizedHistogram ns"]
  unfolding firstBest_def by auto



theorem key_estimate_witness:
  "aMinorTriad \<noteq> [] \<and> totalDuration (keyHistogram aMinorTriad) \<noteq> 0
   \<and> (0::nat) < 12 \<and> visitedBefore 0 True 9 False
   \<and> detectKey aMinorTriad = ''A Minor''
   \<and> corrOf (normalizedHistogram aMinorTriad) 0 True
       < corrOf (normalizedHistogram aMinorTriad) 9 False"
proof -
  have ne: "aMinorTriad \<noteq> []" by (simp add: aMinorTriad_def)
  have tot: "totalDuration (keyHistogram aMinorTriad) \<noteq> 0" by (simp add: hist_Am)
  have before: "visitedBefore 0 True 9 False" by (simp add: visitedBefore_def)
  have best: "bestKey (normalizedHistogram aMinorTriad)
     = \<lparr>maxCorrelation = Some (1646 / 13353), bestKeyIndex = 9, bestKeyIsMajor = False\<rparr>"
    by (simp add: nhist_Am bestKey_Am)
  from key_estimate[OF ne tot] have
    name: "detectKey aMinorTriad = keyName (bestKey (normalizedHistogram aMinorTriad))"
    and first: "\<forall>i<12. \<forall>m. visitedBefore i m 9 False
          \<longrightarrow> corrOf (normalizedHistogram aMinorTriad) i m
              < corrOf (normalizedHistogram aMinorTriad) 9 False"
    unfolding best by simp_all
  from first before have "corrOf (normalizedHistogram aMinorTriad) 0 True
       < corrOf (normalizedHistogram aMinorTriad) 9 False"
    by (metis zero_less_numeral)
  moreover have "detectKey aMinorTriad = ''A Minor''"
    unfolding name best by (simp add: keyName_def NOTE_NAMES_def)
  ultimately show ?thesis using ne tot before by simp
qed

section \<open>Properties of NoteDetector\<close>

lemma closeCurrentNote_inv:
  assumes "trackInv limit s"
  shows "list_all (\<lambda>n. startTime n < limit) (closeCurrentNote s e)"
  using assms
  by (auto simp: trackInv_def closeCurrentNote_def completeNote_def Let_def
      split: option.splits)

lemma advanceState_inv:
  assumes inv: "trackInv limit s" and lim: "t < limit"
  shows "trackInv limit (advanceState s t vel frequency clarity)"
proof -
  note closed = closeCurrentNote_inv[OF inv, of t]
  show ?thesis
    using inv lim closed
    unfolding advanceState_def Let_def trackInv_def
    by (auto split: option.splits bool.splits)
qed

lemma detectFrame_inv:
  assumes "trackInv limit s" and "real i / rate < limit"
    and "detectFrame fp buf rate rms i s = Inr s'"
  shows "trackInv limit s'"
  using assms advanceState_inv[OF assms(1,2)]
  by (auto simp: detectFrame_def Let_def split: sum.splits prod.splits if_splits)

lemma detectLoop_inv:
  assumes "0 < rate"
  shows "trackInv (real n / rate) s
    \<Longrightarrow> detectLoop fp buf rate rms (frameOffsets i n frameSize hopSize) s = Inr s'
    \<Longrightarrow> 0 < frameSize
    \<Longrightarrow> trackInv (real n / rate) s'"
proof (induction i n frameSize hopSize arbitrary: s rule: frameOffsets.induct)
  case (1 i n frameSize hopSize)
  show ?case
  proof (cases "hopSize \<noteq> 0 \<and> i + frameSize \<le> n")
    case False
    then have "frameOffsets i n frameSize hopSize = []"
      by (subst frameOffsets.simps) auto
    with "1.prems" show ?thesis by auto
  next
    case True
    then have offs: "frameOffsets i n frameSize hopSize
        = i # frameOffsets (i + hopSize) n frameSize hopSize"
      by (subst frameOffsets.simps) simp
    from True "1.prems"(3) have "real i < real n" by simp
    then have lt: "real i / rate < real n / rate"
      using assms by (simp add: divide_strict_right_mono)
    from "1.prems"(2) obtain s1 where
      frame: "detectFrame fp buf rate rms i s = Inr s1"
      and rest: "detectLoop fp buf rate rms (frameOffsets (i + hopSize) n frameSize hopSize) s1
                   = Inr s'"
      unfolding offs by (auto split: sum.splits)
    have inv1: "trackInv (real n / rate) s1"
      using detectFrame_inv[OF "1.prems"(1) lt frame] .
    from "1.IH"[OF _ _ inv1 rest "1.prems"(3)] True show ?thesis by simp
  qed
qed

lemma initial_trackInv: "trackInv limit initialDetectState"
  by (simp add: trackInv_def initialDetectState_def)

lemma detectNotes_inv:
  assumes "0 < rate" and "detectNotes fp buf rate = Inr ns"
  shows "list_all (\<lambda>n. startTime n < real (length buf) / rate) ns"
proof -
  from assms(2) obtain s' where
    loop: "detectLoop fp buf rate (calculateRMS buf) (frameOffsets 0 (length buf) 2048 441)
             initialDetectState = Inr s'"
    and ns: "ns = closeCurrentNote s' (real (length buf) / rate)"
    by (auto simp: detectNotes_def Let_def split: sum.splits)
  have "trackInv (real (length buf) / rate) s'"
    using detectLoop_inv[OF assms(1) initial_trackInv loop] by simp
  from closeCurrentNote_inv[OF this] show ?thesis unfolding ns .
qed


text \<open>The example run, frame by frame.\<close>

lemma calculateRMS_replicate_one: "0 < k \<Longrightarrow> calculateRMS (replicate k 1) = 1"
  by (simp add: calculateRMS_def sum_list_replicate)

lemma name_880: "frequencyToNoteName 880 = ''A5''"
proof -
  have "midiNumberOf 880 = 81" by (simp add: midiNumberOf_def)
  then show ?thesis
    unfolding frequencyToNoteName_rounded
    by (simp add: NOTE_NAMES_def jsRem_def intToString_def digitChar_def)
qed

lemma exampleOffsets:
  "frameOffsets 0 5135 2048 441 = [0, 441, 882, 1323, 1764, 2205, 2646, 3087]"
  by (simp add: frameOffsets.simps)

lemma exampleFrame:
  "i \<le> 3087 \<Longrightarrow> calculateRMS (slice exampleBuffer i (i + 2048)) = 1"
  by (simp add: slice_def exampleBuffer_def calculateRMS_replicate_one)

lemma exampleVelocity: "frameVelocity 1 1 = 120"
proof -
  have "round (1 / (1 + 1 / 1000000) * 90 + 30 :: real) = 120"
    unfolding round_def by (intro floor_unique) simp_all
  then show ?thesis by (simp add: frameVelocity_def)
qed

lemma median_simps:
  "median [440] = 440" "median [440, 440] = 440" "median [440, 440, 440] = 440"
  "median [440, 440, 880] = 440" "median [440, 880, 880] = 880" "median [880, 880, 880] = 880"
  by (simp_all add: median_def)

lemma exampleDetectFrame:
  "i \<le> 3087 \<Longrightarrow> detectFrame exampleDetector exampleBuffer 441 1 i s =
     Inr (advanceState s (real i / 441) 120 (if i < 1764 then 440 else 880) 1)"
  by (simp add: detectFrame_def exampleFrame exampleDetector_def exampleVelocity Let_def)

lemma exampleStep1:
  "advanceState
     \<lparr>detectedNotes = [], recentFrequencies = [], currentNote = None,
       lastPitchName = '''', consecutiveFramesCount = 0, potentialNoteStart = None\<rparr>
     0 120 440 1 =
     \<lparr>detectedNotes = [], recentFrequencies = [440], currentNote = None,
       lastPitchName = ''A4'', consecutiveFramesCount = Suc 0, potentialNoteStart = Some 0\<rparr>"
  by (simp add: advanceState_def pushFrequency_def median_simps name_440 name_880
      closeCurrentNote_def completeNote_def clarityThreshold_def minConsecutiveFrames_def
      detectMinDuration_def Let_def)

lemma exampleStep2:
  "advanceState
     \<lparr>detectedNotes = [], recentFrequencies = [440], currentNote = None,
       lastPitchName = ''A4'', consecutiveFramesCount = Suc 0, potentialNoteStart = Some 0\<rparr>
     1 120 440 1 =
     \<lparr>detectedNotes = [], recentFrequencies = [440, 440], currentNote = None,
       lastPitchName = ''A4'', consecutiveFramesCount = 2, potentialNoteStart = Some 0\<rparr>"
  by (simp add: advanceState_def pushFrequency_def median_simps name_440 name_880
      closeCurrentNote_def completeNote_def clarityThreshold_def minConsecutiveFrames_def
      detectMinDuration_def Let_def)

lemma exampleStep3:
  "advanceState
     \<lparr>detectedNotes = [], recentFrequencies = [440, 440], currentNote = None,
       lastPitchName = ''A4'', consecutiveFramesCount = 2, potentialNoteStart = Some 0\<rparr>
     2 120 440 1 =
     \<lparr>detectedNotes = [], recentFrequencies = [440, 440, 440], currentNote = Some \<lparr>partialPitch = ''A4'', partialStartTime = 0, partialVelocity = 120\<rparr>,
       lastPitchName = ''A4'', consecutiveFramesCount = 3, potentialNoteStart = Some 0\<rparr>"
  by (simp add: advanceState_def pushFrequency_def median_simps name_440 name_880
      closeCurrentNote_def completeNote_def clarityThreshold_def minConsecutiveFrames_def
      detectMinDuration_def Let_def)

lemma exampleStep4:
  "advanceState
     \<lparr>detectedNotes = [], recentFrequencies = [440, 440, 440], currentNote = Some \<lparr>partialPitch = ''A4'', partialStartTime = 0, partialVelocity = 120\<rparr>,
       lastPitchName = ''A4'', consecutiveFramesCount = 3, potentialNoteStart = Some 0\<rparr>
     3 120 440 1 =
     \<lparr>detectedNotes = [], recentFrequencies = [440, 440, 440], currentNote = Some \<lparr>partialPitch = ''A4'', partialStartTime = 0, partialVelocity = 120\<rparr>,
       lastPitchName = ''A4'', consecutiveFramesCount = 4, potentialNoteStart = Some 0\<rparr>"
  by (simp add: advanceState_def pushFrequency_def median_simps name_440 name_880
      closeCurrentNote_def completeNote_def clarityThreshold_def minConsecutiveFrames_def
      detectMinDuration_def Let_def)

lemma exampleStep5:
  "advanceState
     \<lparr>detectedNotes = [], recentFrequencies = [440, 440, 440], currentNote = Some \<lparr>partialPitch = ''A4'', partialStartTime = 0, partialVelocity = 120\<rparr>,
       lastPitchName = ''A4'', consecutiveFramesCount = 4, potentialNoteStart = Some 0\<rparr>
     4 120 880 1 =
     \<lparr>detectedNotes = [], recentFrequencies = [440, 440, 880], currentNote = Some \<lparr>partialPitch = ''A4'', partialStartTime = 0, partialVelocity = 120\<rparr>,
       lastPitchName = ''A4'', consecutiveFramesCount = 5, potentialNoteStart = Some 0\<rparr>"
  by (simp add: advanceState_def pushFrequency_def median_simps name_440 name_880
      closeCurrentNote_def completeNote_def clarityThreshold_def minConsecutiveFrames_def
      detectMinDuration_def Let_def)

lemma exampleStep6:
  "advanceState
     \<lparr>detectedNotes = [], recentFrequencies = [440, 440, 880], currentNote = Some \<lparr>partialPitch = ''A4'', partialStartTime = 0, partialVelocity = 120\<rparr>,
       lastPitchName = ''A4'', consecutiveFramesCount = 5, potentialNoteStart = Some 0\<rparr>
     5 120 880 1 =
     \<lparr>detectedNotes = [\<lparr>pitch = ''A4'', startTime = 0, duration = 5, velocity = 120\<rparr>], recentFrequencies = [440, 880, 880], currentNote = None,
       lastPitchName = ''A5'', consecutiveFramesCount = Suc 0, potentialNoteStart = Some 5\<rparr>"
  by (simp add: advanceState_def pushFrequency_def median_simps name_440 name_880
      closeCurrentNote_def completeNote_def clarityThreshold_def minConsecutiveFrames_def
      detectMinDuration_def Let_def)

lemma exampleStep7:
  "advanceState
     \<lparr>detectedNotes = [\<lparr>pitch = ''A4'', startTime = 0, duration = 5, velocity = 120\<rparr>], recentFrequencies = [440, 880, 880], currentNote = None,
       lastPitchName = ''A5'', consecutiveFramesCount = Suc 0, potentialNoteStart = Some 5\<rparr>
     6 120 880 1 =
     \<lparr>detectedNotes = [\<lparr>pitch = ''A4'', startTime = 0, duration = 5, velocity = 120\<rparr>], recentFrequencies = [880, 880, 880], currentNote = None,
       lastPitchName = ''A5'', consecutiveFramesCount = 2, potentialNoteStart = Some 5\<rparr>"
  by (simp add: advanceState_def pushFrequency_def median_simps name_440 name_880
      closeCurrentNote_def completeNote_def clarityThreshold_def minConsecutiveFrames_def
      detectMinDuration_def Let_def)

lemma exampleStep8:
  "advanceState
     \<lparr>detectedNotes = [\<lparr>pitch = ''A4'', startTime = 0, duration = 5, velocity = 120\<rparr>], recentFrequencies = [880, 880, 880], currentNote = None,
       lastPitchName = ''A5'', consecutiveFramesCount = 2, potentialNoteStart = Some 5\<rparr>
     7 120 880 1 =
     \<lparr>detectedNotes = [\<lparr>pitch = ''A4'', startTime = 0, duration = 5, velocity = 120\<rparr>], recentFrequencies = [880, 880, 880], currentNote = Some \<lparr>partialPitch = ''A5'', partialStartTime = 5, partialVelocity = 120\<rparr>,
       lastPitchName = ''A5'', consecutiveFramesCount = 3, potentialNoteStart = Some 5\<rparr>"
  by (simp add: advanceState_def pushFrequency_def median_simps name_440 name_880
      closeCurrentNote_def completeNote_def clarityThreshold_def minConsecutiveFrames_def
      detectMinDuration_def Let_def)

lemma exampleLoop:
  "detectLoop exampleDetector exampleBuffer 441 1
     [0, 441, 882, 1323, 1764, 2205, 2646, 3087] initialDetectState =
   Inr \<lparr>detectedNotes = [\<lparr>pitch = ''A4'', startTime = 0, duration = 5, velocity = 120\<rparr>], recentFrequencies = [880, 880, 880], currentNote = Some \<lparr>partialPitch = ''A5'', partialStartTime = 5, partialVelocity = 120\<rparr>,
       lastPitchName = ''A5'', consecutiveFramesCount = 3, potentialNoteStart = Some 5\<rparr>"
  by (simp add: exampleDetectFrame initialDetectState_def exampleStep1 exampleStep2 exampleStep3
      exampleStep4 exampleStep5 exampleStep6 exampleStep7 exampleStep8)

lemma exampleRun:
  "detectNotes exampleDetector exampleBuffer 441 =
     Inr [\<lparr>pitch = ''A4'', startTime = 0, duration = 5, velocity = 120\<rparr>,
          \<lparr>pitch = ''A5'', startTime = 5, duration = 5135 / 441 - 5, velocity = 120\<rparr>]"
proof -
  have rms: "calculateRMS exampleBuffer = 1"
    by (simp add: exampleBuffer_def calculateRMS_replicate_one)
  have len: "length exampleBuffer = 5135" by (simp add: exampleBuffer_def)
  show ?thesis
    unfolding detectNotes_def Let_def rms len exampleOffsets exampleLoop
    by (simp add: closeCurrentNote_def completeNote_def minConsecutiveFrames_def
        detectMinDuration_def)
qed

section \<open>Properties of AnalysisPipeline\<close>

subsection \<open>Synthetic notes\<close>

lemma createSyntheticNotes_length:
  "length (createSyntheticNotes d) = nat (max 8 \<lfloor>d / (1 / 2)\<rfloor>)"
  by (simp add: createSyntheticNotes_def Let_def)

lemma createSyntheticNotes_nonempty: "createSyntheticNotes d \<noteq> []"
proof -
  have "0 < length (createSyntheticNotes d)"
    unfolding createSyntheticNotes_length by simp
  then show ?thesis by simp
qed

lemma syntheticPitches_nonempty: "i < 8 \<Longrightarrow> syntheticPitches ! i \<noteq> ''''"
proof -
  assume "i < 8"
  then have "i \<in> {0, 1, 2, 3, 4, 5, 6, 7}" by auto
  then show ?thesis by (auto simp: syntheticPitches_def)
qed

lemma createSyntheticNotes_elem:
  assumes "n \<in> set (createSyntheticNotes d)"
  shows "duration n = 9 / 20 \<and> pitch n \<noteq> '''' \<and> velocity n = 80
    \<and> (\<exists>i. int i < max 8 \<lfloor>d / (1 / 2)\<rfloor> \<and> startTime n = real i / 2)"
proof -
  from assms obtain i where i: "i < nat (max 8 \<lfloor>d / (1 / 2)\<rfloor>)"
    and n: "n = \<lparr>pitch = syntheticPitches ! (i mod length syntheticPitches),
                  startTime = real i * (1 / 2), duration = (1 / 2) * (9 / 10), velocity = 80\<rparr>"
    by (auto simp: createSyntheticNotes_def Let_def)
  have "i mod length syntheticPitches < 8" by (simp add: syntheticPitches_def)
  then have "syntheticPitches ! (i mod length syntheticPitches) \<noteq> ''''"
    by (rule syntheticPitches_nonempty)
  moreover have "int i < max 8 \<lfloor>d / (1 / 2)\<rfloor>" using i by linarith
  ultimately show ?thesis unfolding n by auto
qed

lemma createSyntheticNotes_sorted: "sorted (map startTime (createSyntheticNotes d))"
proof -
  have "map startTime (createSyntheticNotes d)
      = map (\<lambda>i. real i * (1 / 2)) [0..<nat (max 8 \<lfloor>d / (1 / 2)\<rfloor>)]"
    by (simp add: createSyntheticNotes_def Let_def comp_def)
  moreover have "sorted (map (\<lambda>i. real i * (1 / 2)) [0..<nat (max 8 \<lfloor>d / (1 / 2)\<rfloor>)])"
    unfolding sorted_map
    by (rule sorted_wrt_mono_rel[OF _ sorted_upt]) simp
  ultimately show ?thesis by simp
qed


subsection \<open>Tempo range\<close>

lemma tempoFromOnsets_cases:
  "tempoFromOnsets onsets = 120
   \<or> (\<exists>x::real. tempoFromOnsets onsets = max minTempo (min maxTempo (real_of_int (round x))))"
proof (cases "length onsets < 10 \<or> length (ioiCandidates onsets) < 5
    \<or> median (sort (ioiCandidates onsets)) = 0")
  case True
  then show ?thesis by (auto simp: tempoFromOnsets_def Let_def)
next
  case False
  then have "tempoFromOnsets onsets =
      max minTempo (min maxTempo (real_of_int (round (60 / median (sort (ioiCandidates onsets))))))"
    by (simp add: tempoFromOnsets_def Let_def)
  then show ?thesis by blast
qed

lemma tempoFromOnsets_range:
  "\<exists>k. tempoFromOnsets onsets = real_of_int k \<and> 60 \<le> k \<and> k \<le> 180"
proof -
  from tempoFromOnsets_cases[of onsets] show ?thesis
  proof
    assume "tempoFromOnsets onsets = 120"
    then show ?thesis by (intro exI[of _ 120]) simp
  next
    assume "\<exists>x::real. tempoFromOnsets onsets = max minTempo (min maxTempo (real_of_int (round x)))"
    then obtain x :: real where
      "tempoFromOnsets onsets = max minTempo (min maxTempo (real_of_int (round x)))" ..
    then show ?thesis
      by (intro exI[of _ "max 60 (min 180 (round x))"]) (simp add: minTempo_def maxTempo_def)
  qed
qed

lemma final_tempo_range:
  "60 \<le> max 60 (round (detectTempo buffer rate)) \<and> max 60 (round (detectTempo buffer rate)) \<le> 180"
proof -
  obtain k where "detectTempo buffer rate = real_of_int k" and "60 \<le> k" and "k \<le> 180"
    using tempoFromOnsets_range[of "detectOnsets buffer rate"] by (auto simp: detectTempo_def)
  then show ?thesis by simp
qed

subsection \<open>Filter, sort and merge\<close>

lemma keepNote_iff:
  "keepNote n \<longleftrightarrow>
     MIN_NOTE_DURATION_SECONDS \<le> duration n \<and> pitch n \<noteq> '''' \<and> trim (pitch n) \<noteq> ''''"
  by (auto simp: keepNote_def)

lemma mergeNotes_nonempty: "ns \<noteq> [] \<Longrightarrow> mergeNotes ns \<noteq> []"
  by (induction ns rule: induct_list012)
    (auto simp del: mergeNotes.simps(3) simp add: mergeNotes_step)

lemma mergeNotes_startTimes:
  "startTime ` set (mergeNotes ns) \<subseteq> startTime ` set ns"
  by (induction ns rule: induct_list012)
    (auto simp del: mergeNotes.simps(3) simp add: mergeNotes_step)

lemma mergeNotes_pitch:
  "list_all (\<lambda>n. pitch n \<noteq> '''') ns \<Longrightarrow> list_all (\<lambda>n. pitch n \<noteq> '''') (mergeNotes ns)"
  by (induction ns rule: induct_list012)
    (auto simp del: mergeNotes.simps(3) simp add: mergeNotes_step)

lemma mergeNotes_startTime_bound:
  assumes "\<forall>x \<in> set ns. P (startTime x)"
  shows "\<forall>x \<in> set (mergeNotes ns). P (startTime x)"
proof
  fix x assume "x \<in> set (mergeNotes ns)"
  then have "startTime x \<in> startTime ` set ns"
    using mergeNotes_startTimes[of ns] by blast
  then obtain y where "y \<in> set ns" and "startTime x = startTime y" by auto
  then show "P (startTime x)" using assms by simp
qed

lemma mergeNotes_sorted:
  "sorted (map startTime ns) \<Longrightarrow> sorted (map startTime (mergeNotes ns))"
proof (induction ns rule: induct_list012)
  case (3 c n rest)
  from "3.prems" have tail: "sorted (map startTime (n # rest))"
    and tail2: "sorted (map startTime rest)"
    and c_le: "\<forall>x \<in> set (n # rest). startTime c \<le> startTime x"
    and c_le2: "\<forall>x \<in> set rest. startTime c \<le> startTime x"
    by auto
  have le1: "\<forall>x \<in> set (mergeNotes (n # rest)). startTime c \<le> startTime x"
    using c_le by (rule mergeNotes_startTime_bound)
  have le2: "\<forall>x \<in> set (mergeNotes rest). startTime c \<le> startTime x"
    using c_le2 by (rule mergeNotes_startTime_bound)
  show ?case
    using "3.IH"(1)[OF tail2] "3.IH"(2)[OF tail] le1 le2
    by (simp del: mergeNotes.simps(3) add: mergeNotes_step)
qed simp_all

lemma mergeNotes_duration:
  "sorted (map startTime ns) \<Longrightarrow> list_all (\<lambda>n. m \<le> duration n) ns
    \<Longrightarrow> list_all (\<lambda>n. m \<le> duration n) (mergeNotes ns)"
proof (induction ns rule: induct_list012)
  case (3 c n rest)
  from "3.prems" have "startTime c \<le> startTime n" and "m \<le> duration n" by auto
  then have "m \<le> startTime n + duration n - startTime c" by simp
  with 3 show ?case by (auto simp del: mergeNotes.simps(3) simp add: mergeNotes_step)
qed simp_all

subsection \<open>The result on the path without exception\<close>

lemma finishAnalysis_fields:
  "truncated (finishAnalysis env wasTruncated processed samples detected) = wasTruncated
   \<and> tempo (finishAnalysis env wasTruncated processed samples detected)
       = max 60 (round (detectTempo samples (sampleRate processed)))
   \<and> notes (finishAnalysis env wasTruncated processed samples detected)
       = finalNotesOf (bufferDuration processed) detected"
  by (simp add: finishAnalysis_def finalNotesOf_def Let_def split: option.splits)

lemma analyzeBody_Inr:
  assumes ok: "analyzeBody env = Inr r"
  shows "\<exists>original processed samples detected.
      decodeAudioData env = Inr original
    \<and> (if bufferDuration original > MAX_DURATION_SECONDS
        then truncateAudioBuffer (createBufferError env) original MAX_DURATION_SECONDS
        else Inr original) = Inr processed
    \<and> mixDownToMono processed = Some samples
    \<and> detectNotes (findPitch env) samples (sampleRate processed) = Inr detected
    \<and> r = finishAnalysis env (bufferDuration original > MAX_DURATION_SECONDS) processed samples
          detected"
  using ok unfolding analyzeBody_def Let_def
  by (auto split: sum.splits option.splits if_splits)

lemma analyzeAudio_cases:
  "(\<exists>e. analyzeBody env = Inl e \<and> analyzeAudio env = safeDefault)
   \<or> (analyzeBody env = Inr (analyzeAudio env))"
  by (cases "analyzeBody env") (simp_all add: analyzeAudio_def)

subsection \<open>The final note list\<close>

lemma finalNotesOf_nonempty: "finalNotesOf d detected \<noteq> []"
proof -
  have "ns \<noteq> [] \<Longrightarrow> mergeNotes (sort_key startTime ns) \<noteq> []" for ns
  proof (rule mergeNotes_nonempty)
    assume "ns \<noteq> []"
    then have "length (sort_key startTime ns) \<noteq> 0" by simp
    then show "sort_key startTime ns \<noteq> []" by fastforce
  qed
  then show ?thesis
    by (simp add: finalNotesOf_def Let_def createSyntheticNotes_nonempty)
qed

lemma synthetic_quality:
  "list_all (\<lambda>n. 12 / 100 \<le> duration n \<and> pitch n \<noteq> '''') (createSyntheticNotes d)"
  unfolding list_all_iff
proof
  fix n assume "n \<in> set (createSyntheticNotes d)"
  then have "duration n = 9 / 20" and "pitch n \<noteq> ''''"
    using createSyntheticNotes_elem by blast+
  then show "12 / 100 \<le> duration n \<and> pitch n \<noteq> ''''" by simp
qed

lemma sorted_sort_key_startTime: "sorted (map startTime (sort_key startTime ns))"
  by (rule sorted_sort_key)

lemma filtered_quality:
  "list_all (\<lambda>n. 12 / 100 \<le> duration n \<and> pitch n \<noteq> '''')
     (sort_key startTime (filter keepNote ns))"
  by (auto simp: list_all_iff keepNote_iff MIN_NOTE_DURATION_SECONDS_def)

lemma merged_quality:
  assumes "sorted (map startTime ns)"
    and "list_all (\<lambda>n. 12 / 100 \<le> duration n \<and> pitch n \<noteq> '''') ns"
  shows "list_all (\<lambda>n. 12 / 100 \<le> duration n \<and> pitch n \<noteq> '''') (mergeNotes ns)"
proof -
  from assms(2) have d: "list_all (\<lambda>n. 12 / 100 \<le> duration n) ns"
    and p: "list_all (\<lambda>n. pitch n \<noteq> '''') ns"
    by (auto simp: list_all_iff)
  from mergeNotes_duration[OF assms(1) d] mergeNotes_pitch[OF p]
  show ?thesis by (auto simp: list_all_iff)
qed

lemma finalNotesOf_quality:
  "list_all (\<lambda>n. 12 / 100 \<le> duration n \<and> pitch n \<noteq> '''') (finalNotesOf d detected)
   \<and> sorted (map startTime (finalNotesOf d detected))"
  unfolding finalNotesOf_def Let_def
  using synthetic_quality[of d] createSyntheticNotes_sorted[of d]
    merged_quality[OF sorted_sort_key_startTime filtered_quality]
    mergeNotes_sorted[OF sorted_sort_key_startTime]
  by simp

lemma synthetic_startTime_bound:
  assumes "d \<le> 60"
  shows "\<forall>n \<in> set (createSyntheticNotes d). startTime n < 60"
proof
  fix n assume "n \<in> set (createSyntheticNotes d)"
  then obtain i where i: "int i < max 8 \<lfloor>d / (1 / 2)\<rfloor>" and st: "startTime n = real i / 2"
    using createSyntheticNotes_elem by blast
  have "\<lfloor>d / (1 / 2)\<rfloor> \<le> 120" using assms by (simp add: floor_le_iff)
  with i have "int i < 120" by linarith
  then have "real i < 120" by simp
  then show "startTime n < 60" unfolding st by simp
qed

lemma finalNotesOf_startTime_bound:
  assumes "d \<le> 60" and "\<forall>n \<in> set detected. startTime n < 60"
  shows "\<forall>n \<in> set (finalNotesOf d detected). startTime n < 60"
proof -
  let ?ns = "if length detected = 0 then createSyntheticNotes d else detected"
  have a: "\<forall>n \<in> set ?ns. startTime n < 60"
    using assms(2) synthetic_startTime_bound[OF assms(1)] by simp
  then have "\<forall>n \<in> set (sort_key startTime (filter keepNote ?ns)). startTime n < 60"
    by simp
  then have "\<forall>n \<in> set (mergeNotes (sort_key startTime (filter keepNote ?ns))). startTime n < 60"
    by (rule mergeNotes_startTime_bound)
  then show ?thesis
    unfolding finalNotesOf_def Let_def using synthetic_startTime_bound[OF assms(1)] by simp
qed

subsection \<open>Truncation and mixdown\<close>

lemma truncateAudioBuffer_valid:
  assumes "truncateAudioBuffer cbe b d = Inr p" and "validBuffer b"
  shows "validBuffer p \<and> sampleRate p = sampleRate b
    \<and> bufferLength p = nat \<lfloor>d * sampleRate b\<rfloor>"
  using assms
  by (auto simp: truncateAudioBuffer_def validBuffer_def Let_def list_all_iff
      split: option.splits dest: in_set_takeD)

lemma mixDownToMono_length:
  assumes "mixDownToMono b = Some samples" and "validBuffer b"
  shows "length samples = bufferLength b"
proof (cases "numberOfChannels b = 1")
  case True
  with assms(2) have "channelData b ! 0 \<in> set (channelData b)"
    by (simp add: validBuffer_def)
  with assms(2) have "length (channelData b ! 0) = bufferLength b"
    by (simp add: validBuffer_def list_all_iff)
  with True assms(1) show ?thesis by (simp add: mixDownToMono_def Let_def)
next
  case False
  with assms(1) show ?thesis by (auto simp: mixDownToMono_def Let_def)
qed

lemma truncated_duration:
  assumes "0 < rate"
  shows "real (nat \<lfloor>60 * rate\<rfloor>) / rate \<le> 60"
proof -
  have "0 \<le> \<lfloor>60 * rate\<rfloor>" using assms by simp
  then have "real (nat \<lfloor>60 * rate\<rfloor>) = real_of_int \<lfloor>60 * rate\<rfloor>" by simp
  also have "\<dots> \<le> 60 * rate" by simp
  finally show ?thesis using assms by (simp add: divide_le_eq)
qed

subsection \<open>Example environments\<close>

lemma safeDefault_notes:
  "createSyntheticNotes 5 =
     [\<lparr>pitch = ''C4'', startTime = 0, duration = 9 / 20, velocity = 80\<rparr>,
      \<lparr>pitch = ''D4'', startTime = 1 / 2, duration = 9 / 20, velocity = 80\<rparr>,
      \<lparr>pitch = ''E4'', startTime = 1, duration = 9 / 20, velocity = 80\<rparr>,
      \<lparr>pitch = ''F4'', startTime = 3 / 2, duration = 9 / 20, velocity = 80\<rparr>,
      \<lparr>pitch = ''G4'', startTime = 2, duration = 9 / 20, velocity = 80\<rparr>,
      \<lparr>pitch = ''A4'', startTime = 5 / 2, duration = 9 / 20, velocity = 80\<rparr>,
      \<lparr>pitch = ''B4'', startTime = 3, duration = 9 / 20, velocity = 80\<rparr>,
      \<lparr>pitch = ''C5'', startTime = 7 / 2, duration = 9 / 20, velocity = 80\<rparr>,
      \<lparr>pitch = ''C4'', startTime = 4, duration = 9 / 20, velocity = 80\<rparr>,
      \<lparr>pitch = ''D4'', startTime = 9 / 2, duration = 9 / 20, velocity = 80\<rparr>]"
proof -
  have "[0..<10] = [0, 1, 2, 3, 4, 5, 6, 7, 8, 9]" by code_simp
  then show ?thesis
    by (simp add: createSyntheticNotes_def syntheticPitches_def Let_def)
qed

lemma longEnvironment_body:
  "analyzeBody longEnvironment =
     Inr (finishAnalysis longEnvironment True
            \<lparr>numberOfChannels = 1, bufferLength = 60, sampleRate = 1,
             channelData = [replicate 60 0]\<rparr>
            (replicate 60 0) [])"
proof -
  have offs: "frameOffsets 0 60 2048 441 = []" by (simp add: frameOffsets.simps)
  have cut: "truncateAudioBuffer (\<lambda>channels len rate. None) longBuffer 60 =
      Inr \<lparr>numberOfChannels = 1, bufferLength = 60, sampleRate = 1,
             channelData = [replicate 60 0]\<rparr>"
    by (simp add: truncateAudioBuffer_def longBuffer_def Let_def)
  have det: "detectNotes (\<lambda>i frame rate. Inr (0, 0)) (replicate 60 0) 1 = Inr []"
    by (simp add: detectNotes_def offs Let_def closeCurrentNote_def initialDetectState_def)
  have long: "bufferDuration longBuffer > MAX_DURATION_SECONDS"
    by (simp add: bufferDuration_def longBuffer_def MAX_DURATION_SECONDS_def)
  show ?thesis
    unfolding analyzeBody_def Let_def
    using long cut det
    by (simp add: longEnvironment_def MAX_DURATION_SECONDS_def mixDownToMono_def Let_def)
qed

lemma exampleEnvironment_body:
  "analyzeBody exampleEnvironment =
     Inr (finishAnalysis exampleEnvironment False
            \<lparr>numberOfChannels = 1, bufferLength = 5135, sampleRate = 441,
             channelData = [exampleBuffer]\<rparr>
            exampleBuffer
            [\<lparr>pitch = ''A4'', startTime = 0, duration = 5, velocity = 120\<rparr>,
             \<lparr>pitch = ''A5'', startTime = 5, duration = 5135 / 441 - 5, velocity = 120\<rparr>])"
proof -
  have short: "\<not> bufferDuration \<lparr>numberOfChannels = 1, bufferLength = 5135, sampleRate = 441,
             channelData = [exampleBuffer]\<rparr> > MAX_DURATION_SECONDS"
    by (simp add: bufferDuration_def MAX_DURATION_SECONDS_def)
  show ?thesis
    unfolding analyzeBody_def Let_def
    using short exampleRun
    by (simp add: exampleEnvironment_def mixDownToMono_def Let_def)
qed

lemma exampleEnvironment_notes:
  "notes (analyzeAudio exampleEnvironment) =
     [\<lparr>pitch = ''A4'', startTime = 0, duration = 5, velocity = 120\<rparr>,
      \<lparr>pitch = ''A5'', startTime = 5, duration = 5135 / 441 - 5, velocity = 120\<rparr>]"
  unfolding analyzeAudio_def exampleEnvironment_body
  by (simp add: finishAnalysis_fields finalNotesOf_def keepNote_def trim_def isWhiteSpace_def
      MIN_NOTE_DURATION_SECONDS_def Let_def)

subsection \<open>Failures\<close>

lemma decode_failure: "decodeAudioData env = Inl e \<Longrightarrow> analyzeBody env = Inl e"
  by (simp add: analyzeBody_def)

lemma case_option_same: "(case x of None \<Rightarrow> r | Some e \<Rightarrow> r) = r"
  by (cases x) simp_all

lemma finishAnalysis_store:
  "finishAnalysis (env\<lparr>storeAnalysis := store\<rparr>) w processed samples detected
   = finishAnalysis env w processed samples detected"
  unfolding finishAnalysis_def Let_def case_option_same by simp

lemma store_failure_swallowed:
  "analyzeBody (env\<lparr>storeAnalysis := store\<rparr>) = analyzeBody env"
  unfolding analyzeBody_def finishAnalysis_store Let_def
  by (simp cong: sum.case_cong option.case_cong if_cong)

lemma detector_failure: "analyzeBody throwingEnvironment = Inl PitchDetectorError"
proof -
  have rms: "calculateRMS exampleBuffer = 1"
    by (simp add: exampleBuffer_def calculateRMS_replicate_one)
  have len: "length exampleBuffer = 5135" by (simp add: exampleBuffer_def)
  have frame: "calculateRMS (slice exampleBuffer 0 2048) = 1"
    using exampleFrame[of 0] by simp
  have "detectNotes (\<lambda>i frame rate. Inl PitchDetectorError) exampleBuffer 441
      = Inl PitchDetectorError"
    unfolding detectNotes_def Let_def rms len exampleOffsets
    by (simp add: detectFrame_def frame Let_def)
  moreover have "\<not> bufferDuration \<lparr>numberOfChannels = 1, bufferLength = 5135, sampleRate = 441,
             channelData = [exampleBuffer]\<rparr> > MAX_DURATION_SECONDS"
    by (simp add: bufferDuration_def MAX_DURATION_SECONDS_def)
  ultimately show ?thesis
    unfolding analyzeBody_def Let_def
    by (simp add: throwingEnvironment_def exampleEnvironment_def mixDownToMono_def Let_def)
qed

subsection \<open>The claims about the pipeline\<close>

text \<open>
  Claim C1: for every input, on the path without exception as well as on the paths through
  the synthetic fallbacks and through the \<^verbatim>\<open>catch\<close>, \<open>analyzeAudio\<close> returns a result whose
  note list is not empty and whose tempo is an integer between 60 and 180.  The statement
  needs no assumption on the environment; the buffers the platform hands out satisfy
  \<open>validBuffer\<close>, and only for those does the model of the mixdown follow the code.
\<close>

theorem result_nonempty_and_tempo_in_band:
  "notes (analyzeAudio env) \<noteq> []
   \<and> 60 \<le> tempo (analyzeAudio env) \<and> tempo (analyzeAudio env) \<le> 180"
proof -
  from analyzeAudio_cases[of env] show ?thesis
  proof
    assume "\<exists>e. analyzeBody env = Inl e \<and> analyzeAudio env = safeDefault"
    then have "analyzeAudio env = safeDefault" by blast
    then show ?thesis by (simp add: safeDefault_def createSyntheticNotes_nonempty)
  next
    assume "analyzeBody env = Inr (analyzeAudio env)"
    from analyzeBody_Inr[OF this] obtain w processed samples detected where
      "analyzeAudio env = finishAnalysis env w processed samples detected" by blast
    then show ?thesis
      using finishAnalysis_fields[of env w processed samples detected]
        finalNotesOf_nonempty final_tempo_range by simp
  qed
qed

text \<open>
  Claim C2: when a step of the \<^verbatim>\<open>try\<close> block of \<open>analyzeAudio\<close> throws, the caller receives
  the safe default: tempo 120, key C Major, time signature 4/4, the synthetic notes for five
  seconds (ten notes, the scale C4 to C5 and then C4, D4), and \<open>truncated = False\<close>.
\<close>

theorem failure_gives_safe_default:
  assumes "analyzeBody env = Inl e"
  shows "analyzeAudio env =
     \<lparr>tempo = 120, key = ''C Major'', timeSignature = ''4/4'',
      notes =
        [\<lparr>pitch = ''C4'', startTime = 0, duration = 9 / 20, velocity = 80\<rparr>,
         \<lparr>pitch = ''D4'', startTime = 1 / 2, duration = 9 / 20, velocity = 80\<rparr>,
         \<lparr>pitch = ''E4'', startTime = 1, duration = 9 / 20, velocity = 80\<rparr>,
         \<lparr>pitch = ''F4'', startTime = 3 / 2, duration = 9 / 20, velocity = 80\<rparr>,
         \<lparr>pitch = ''G4'', startTime = 2, duration = 9 / 20, velocity = 80\<rparr>,
         \<lparr>pitch = ''A4'', startTime = 5 / 2, duration = 9 / 20, velocity = 80\<rparr>,
         \<lparr>pitch = ''B4'', startTime = 3, duration = 9 / 20, velocity = 80\<rparr>,
         \<lparr>pitch = ''C5'', startTime = 7 / 2, duration = 9 / 20, velocity = 80\<rparr>,
         \<lparr>pitch = ''C4'', startTime = 4, duration = 9 / 20, velocity = 80\<rparr>,
         \<lparr>pitch = ''D4'', startTime = 9 / 2, duration = 9 / 20, velocity = 80\<rparr>],
      truncated = False\<rparr>"
  using assms by (simp add: analyzeAudio_def safeDefault_def safeDefault_notes)

theorem failure_gives_safe_default_witness:
  "analyzeBody failingEnvironment = Inl DecodeError
   \<and> analyzeBody throwingEnvironment = Inl PitchDetectorError
   \<and> analyzeAudio throwingEnvironment = analyzeAudio failingEnvironment
   \<and> tempo (analyzeAudio failingEnvironment) = 120
   \<and> key (analyzeAudio failingEnvironment) = ''C Major''
   \<and> timeSignature (analyzeAudio failingEnvironment) = ''4/4''
   \<and> length (notes (analyzeAudio failingEnvironment)) = 10
   \<and> \<not> truncated (analyzeAudio failingEnvironment)"
proof -
  have fails: "analyzeBody failingEnvironment = Inl DecodeError"
    by (rule decode_failure) (simp add: failingEnvironment_def)
  from failure_gives_safe_default[OF fails] failure_gives_safe_default[OF detector_failure]
    fails detector_failure
  show ?thesis by simp
qed

text \<open>
  Claim C5: on the path without exception, every note of the result lasts at least
  \<open>MIN_NOTE_DURATION_SECONDS\<close> (0.12 s) and has a non-empty pitch, and the notes are sorted by
  start time.  The filter establishes the first two, the sort the third, and the merge pass
  (or the synthetic fallback) keeps all three.
\<close>

theorem final_notes_quality:
  assumes "analyzeBody env = Inr r"
  shows "list_all (\<lambda>n. MIN_NOTE_DURATION_SECONDS \<le> duration n \<and> pitch n \<noteq> '''') (notes r)
    \<and> sorted (map startTime (notes r))"
proof -
  from analyzeBody_Inr[OF assms] obtain w processed samples detected where
    "r = finishAnalysis env w processed samples detected" by blast
  then have "notes r = finalNotesOf (bufferDuration processed) detected"
    using finishAnalysis_fields[of env w processed samples detected] by simp
  then show ?thesis
    using finalNotesOf_quality[of "bufferDuration processed" detected]
    by (simp add: MIN_NOTE_DURATION_SECONDS_def)
qed

theorem final_notes_quality_witness:
  "analyzeBody exampleEnvironment = Inr (analyzeAudio exampleEnvironment)
   \<and> notes (analyzeAudio exampleEnvironment) =
       [\<lparr>pitch = ''A4'', startTime = 0, duration = 5, velocity = 120\<rparr>,
        \<lparr>pitch = ''A5'', startTime = 5, duration = 5135 / 441 - 5, velocity = 120\<rparr>]
   \<and> list_all (\<lambda>n. MIN_NOTE_DURATION_SECONDS \<le> duration n \<and> pitch n \<noteq> '''')
        (notes (analyzeAudio exampleEnvironment))
   \<and> sorted (map startTime (notes (analyzeAudio exampleEnvironment)))"
proof -
  have ok: "analyzeBody exampleEnvironment = Inr (analyzeAudio exampleEnvironment)"
    by (simp add: analyzeAudio_def exampleEnvironment_body)
  from final_notes_quality[OF ok] ok exampleEnvironment_notes show ?thesis by simp
qed

text \<open>
  Claim C8: for a decoded buffer that lasts longer than \<open>MAX_DURATION_SECONDS\<close> (60 s), so in
  particular for one of 90 s, on the path without exception the result has
  \<open>truncated = True\<close> and no note, detected or synthetic, starts at 60 s or later.
\<close>

theorem long_buffer_truncated:
  assumes "decodeAudioData env = Inr buffer" and "validBuffer buffer"
    and "bufferDuration buffer > MAX_DURATION_SECONDS"
    and "analyzeBody env = Inr r"
  shows "truncated r \<and> list_all (\<lambda>n. startTime n < 60) (notes r)"
proof -
  from analyzeBody_Inr[OF assms(4)] assms(1,3) obtain processed samples detected where
    cut: "truncateAudioBuffer (createBufferError env) buffer MAX_DURATION_SECONDS = Inr processed"
    and mix: "mixDownToMono processed = Some samples"
    and det: "detectNotes (findPitch env) samples (sampleRate processed) = Inr detected"
    and r: "r = finishAnalysis env True processed samples detected"
    by auto
  from truncateAudioBuffer_valid[OF cut assms(2)] have valid: "validBuffer processed"
    and rate: "sampleRate processed = sampleRate buffer"
    and len: "bufferLength processed = nat \<lfloor>60 * sampleRate buffer\<rfloor>"
    by (simp_all add: MAX_DURATION_SECONDS_def)
  from assms(2) have pos: "0 < sampleRate buffer" by (simp add: validBuffer_def)
  have dur: "bufferDuration processed \<le> 60"
    unfolding bufferDuration_def rate len by (rule truncated_duration[OF pos])
  have "length samples = bufferLength processed"
    using mix valid by (rule mixDownToMono_length)
  then have "real (length samples) / sampleRate processed \<le> 60"
    using dur by (simp add: bufferDuration_def)
  moreover have "list_all (\<lambda>n. startTime n < real (length samples) / sampleRate processed) detected"
    using detectNotes_inv[OF _ det] pos rate by simp
  ultimately have "\<forall>n \<in> set detected. startTime n < 60"
    by (auto simp: list_all_iff)
  from finalNotesOf_startTime_bound[OF dur this] show ?thesis
    unfolding r using finishAnalysis_fields[of env True processed samples detected]
    by (simp add: list_all_iff)
qed

theorem long_buffer_truncated_witness:
  "decodeAudioData longEnvironment = Inr longBuffer \<and> validBuffer longBuffer
   \<and> bufferDuration longBuffer = 90
   \<and> analyzeBody longEnvironment = Inr (analyzeAudio longEnvironment)
   \<and> truncated (analyzeAudio longEnvironment)
   \<and> list_all (\<lambda>n. startTime n < 60) (notes (analyzeAudio longEnvironment))"
proof -
  have dec: "decodeAudioData longEnvironment = Inr longBuffer"
    by (simp add: longEnvironment_def)
  have valid: "validBuffer longBuffer" by (simp add: validBuffer_def longBuffer_def)
  have dur: "bufferDuration longBuffer = 90" by (simp add: bufferDuration_def longBuffer_def)
  then have long: "bufferDuration longBuffer > MAX_DURATION_SECONDS"
    by (simp add: MAX_DURATION_SECONDS_def)
  have ok: "analyzeBody longEnvironment = Inr (analyzeAudio longEnvironment)"
    by (simp add: analyzeAudio_def longEnvironment_body)
  from long_buffer_truncated[OF dec valid long ok] dec valid dur ok show ?thesis by simp
qed

end
